theory Spec2Isabelle
  imports Complex_Main "HOL-Library.Multiset" "HOL-Library.Char_ord"
    "HOL-Library.List_Lexorder" "HOL-Library.Product_Lexorder"
begin

section \<open>Errors raised by the Python code\<close>

text \<open>
  Every raise of the modelled functions is a value: an out-of-range index, a failed
  \<^verbatim>\<open>assert\<close>, a numpy shape error and a missing attribute.
\<close>

datatype py_error = IndexError | AssertionError | ValueError | AttributeError

section \<open>madrl\_environments/cas/multi\_aircraft.py\<close>

subsection \<open>Module constants\<close>

definition DEST_THRESHOLD :: real where "DEST_THRESHOLD = 100"
definition SENSING_RANGE :: real where "SENSING_RANGE = 1000"
definition SENSOR_CAPACITY :: int where "SENSOR_CAPACITY = 4"
definition NMAC_RANGE :: real where "NMAC_RANGE = 150"
definition TERM_PAIRWISE_OBS :: "real list" where "TERM_PAIRWISE_OBS = replicate 4 1"
definition MIN_AGENTS :: int where "MIN_AGENTS = 10"

definition ACTION_IND_ACC :: nat where "ACTION_IND_ACC = 0"
definition ACTION_IND_TURN :: nat where "ACTION_IND_TURN = 1"
definition ACTION_DIM :: nat where "ACTION_DIM = 2"
definition MIN_V :: real where "MIN_V = 15"
definition MAX_V :: real where "MAX_V = 45"
definition MAX_ACC :: real where "MAX_ACC = 5"

text \<open>\<^verbatim>\<open>np.deg2rad(10)\<close> is \<open>10 * pi / 180\<close>.\<close>
definition MAX_TURN_RATE :: real where "MAX_TURN_RATE = 10 * pi / 180"

definition DT :: real where "DT = 1"
definition MAX_TIME_STEPS :: int where "MAX_TIME_STEPS = 2000"

definition INNER_RADIUS :: real where "INNER_RADIUS = 2000"
definition OUTTER_RADIUS :: real where "OUTTER_RADIUS = 4000"
definition AIRSPACE_WIDTH :: real where "AIRSPACE_WIDTH = 6000"

subsection \<open>Angle helper\<close>

text \<open>
  Python's \<^verbatim>\<open>%\<close> on floats takes the sign of the divisor: for a positive divisor
  \<open>b\<close> the result is \<open>a - b * floor (a / b)\<close>, in \<open>[0, b)\<close>. The angles are reals here;
  rounding is not modelled.
\<close>

definition py_fmod :: "real \<Rightarrow> real \<Rightarrow> real" where
  "py_fmod a b = a - b * of_int \<lfloor>a / b\<rfloor>"

definition norm_angle :: "real \<Rightarrow> real" where
  "norm_angle angle = py_fmod (angle + pi) (2 * pi) - pi"

text \<open>
  \<^verbatim>\<open>math.atan2(y, x)\<close>, the angle of the point \<open>(x, y)\<close> in \<open>[-pi, pi]\<close>, by quadrant;
  \<^verbatim>\<open>atan2(0, 0)\<close> is 0.
\<close>

definition atan2 :: "real \<Rightarrow> real \<Rightarrow> real" where
  "atan2 y x =
     (if 0 < x then arctan (y / x)
      else if x < 0 \<and> 0 \<le> y then arctan (y / x) + pi
      else if x < 0 then arctan (y / x) - pi
      else if 0 < y then pi / 2
      else if y < 0 then - (pi / 2)
      else 0)"

subsection \<open>The aircraft and the environment\<close>

text \<open>
  The fields of \<^verbatim>\<open>Aircraft\<close> (prefixed \<open>ac_\<close>) and of \<^verbatim>\<open>MultiAircraftEnv\<close>
  (prefixed \<open>env_\<close>). An aircraft's back reference \<^verbatim>\<open>self.env\<close> is the
  environment passed next to it. \<^verbatim>\<open>circle_radius\<close> exists only once \<^verbatim>\<open>reset\<close> has
  drawn the circle scenario.
\<close>

record Aircraft =
  ac_v :: real
  ac_turn_rate :: real
  ac_x :: real
  ac_y :: real
  ac_dest_x :: real
  ac_dest_y :: real
  ac_heading :: real
  ac_dist_to_dest :: real
  ac_init_dist_to_dest :: real
  ac_prev_dist_to_dest :: real
  ac_obs :: "real list"

record MultiAircraftEnv =
  env_t :: int
  env_aircraft :: "Aircraft list"
  env_n_agents :: int
  env_continuous_action_space :: bool
  env_constant_n_agents :: bool
  env_training_mode :: string
  env_sensor_mode :: string
  env_sensor_capacity :: int
  env_max_time_steps :: int
  env_one_hot :: bool
  env_render_option :: bool
  env_speed_noise :: real
  env_turn_rate_noise :: real
  env_position_noise :: real
  env_angle_noise :: real
  env_reward_mech :: string
  env_rew_arrival :: real
  env_rew_closing :: real
  env_rew_nmac :: real
  env_rew_large_turnrate :: real
  env_circle_radius :: "real option"

text \<open>
  \<^verbatim>\<open>MultiAircraftEnv.__init__\<close>, its eighteen arguments in the source's order. The
  call \<^verbatim>\<open>self.seed()\<close> only creates a generator that no modelled method reads.
\<close>

definition MultiAircraftEnv_init ::
  "bool \<Rightarrow> int \<Rightarrow> bool \<Rightarrow> string \<Rightarrow> string \<Rightarrow> int \<Rightarrow> int \<Rightarrow> bool \<Rightarrow> bool \<Rightarrow>
   real \<Rightarrow> real \<Rightarrow> real \<Rightarrow> real \<Rightarrow> string \<Rightarrow> real \<Rightarrow> real \<Rightarrow> real \<Rightarrow> real \<Rightarrow> MultiAircraftEnv" where
  "MultiAircraftEnv_init continuous_action_space n_agents constant_n_agents training_mode
     sensor_mode sensor_capacity max_time_steps one_hot render_option
     speed_noise turn_rate_noise position_noise angle_noise
     reward_mech rew_arrival rew_closing rew_nmac rew_large_turnrate =
   \<lparr> env_t = 0,
     env_aircraft = [],
     env_n_agents = n_agents,
     env_continuous_action_space = continuous_action_space,
     env_constant_n_agents = constant_n_agents,
     env_training_mode = training_mode,
     env_sensor_mode = sensor_mode,
     env_sensor_capacity = sensor_capacity,
     env_max_time_steps = max_time_steps,
     env_one_hot = one_hot,
     env_render_option = render_option,
     env_speed_noise = 1 / 1000,
     env_turn_rate_noise = 1 / 1000,
     env_position_noise = 1 / 1000,
     env_angle_noise = 1 / 1000,
     env_reward_mech = reward_mech,
     env_rew_arrival = rew_arrival,
     env_rew_closing = rew_closing,
     env_rew_nmac = rew_nmac,
     env_rew_large_turnrate = rew_large_turnrate,
     env_circle_radius = None \<rparr>"

subsection \<open>Applying an action\<close>

text \<open>\<^verbatim>\<open>np.clip(a, lo, hi)\<close> is \<^verbatim>\<open>minimum(maximum(a, lo), hi)\<close>.\<close>

definition np_clip :: "real \<Rightarrow> real \<Rightarrow> real \<Rightarrow> real" where
  "np_clip a lo hi = min (max a lo) hi"

text \<open>
  \<^verbatim>\<open>Aircraft.apply_action\<close>. The action is a vector; reading a component it does not
  have raises IndexError, and nothing of the aircraft is kept then.
\<close>

definition apply_action :: "Aircraft \<Rightarrow> real list \<Rightarrow> py_error + Aircraft" where
  "apply_action self action =
     (if length action \<le> ACTION_IND_ACC then Inl IndexError
      else let v = np_clip (ac_v self + MAX_ACC * (action ! ACTION_IND_ACC) * DT) MIN_V MAX_V in
      if length action \<le> ACTION_IND_TURN then Inl IndexError
      else let turn_rate = MAX_TURN_RATE * (action ! ACTION_IND_TURN);
               heading = norm_angle (ac_heading self + turn_rate * DT);
               x = ac_x self + cos heading * v * DT;
               y = ac_y self + sin heading * v * DT;
               prev_dist_to_dest = ac_dist_to_dest self;
               dist_to_dest = sqrt ((ac_dest_y self - y)\<^sup>2 + (ac_dest_x self - x)\<^sup>2)
           in Inr (self\<lparr> ac_v := v, ac_turn_rate := turn_rate, ac_heading := heading,
                         ac_x := x, ac_y := y, ac_prev_dist_to_dest := prev_dist_to_dest,
                         ac_dist_to_dest := dist_to_dest \<rparr>))"

subsection \<open>Ranking agents by distance\<close>

definition agent_dist :: "Aircraft \<Rightarrow> Aircraft \<Rightarrow> real" where
  "agent_dist a b = sqrt ((ac_x a - ac_x b)\<^sup>2 + (ac_y a - ac_y b)\<^sup>2)"

definition closer :: "Aircraft \<Rightarrow> Aircraft \<Rightarrow> Aircraft \<Rightarrow> bool" where
  "closer a b ref = (if agent_dist a ref \<le> agent_dist b ref then True else False)"

text \<open>
  \<^verbatim>\<open>arr[i], arr[j] = arr[j], arr[i]\<close>: both reads come first, then the two writes.
\<close>

definition swap :: "nat \<Rightarrow> nat \<Rightarrow> 'a list \<Rightarrow> 'a list" where
  "swap i j arr = arr[i := arr ! j, j := arr ! i]"

text \<open>
  \<^verbatim>\<open>partition\<close> (Lomuto's scheme). The indices \<open>low\<close>, \<open>high\<close> and \<open>i\<close> are Python
  integers (\<open>i\<close> starts at \<open>low - 1\<close>, and \<^verbatim>\<open>sort_agents\<close> is called with
  \<open>high = parti - 1\<close>, which may be \<open>-1\<close>). The loop \<^verbatim>\<open>for j in range(low, high)\<close>
  is the recursion over the list of the values of \<open>j\<close>. The reads and writes of \<open>arr\<close> are
  those of the source for \<open>0 \<le> low\<close> and \<open>high < len(arr)\<close>, which is how
  \<^verbatim>\<open>get_observation\<close>, the only caller, calls \<^verbatim>\<open>sort_agents\<close>, and which the recursion
  of \<^verbatim>\<open>sort_agents\<close> keeps.
\<close>

fun partition_loop ::
  "Aircraft \<Rightarrow> Aircraft \<Rightarrow> nat list \<Rightarrow> Aircraft list \<Rightarrow> int \<Rightarrow> Aircraft list \<times> int" where
  "partition_loop ref pivot [] arr i = (arr, i)"
| "partition_loop ref pivot (j # js) arr i =
     (if closer (arr ! j) pivot ref
      then partition_loop ref pivot js (swap (nat (i + 1)) j arr) (i + 1)
      else partition_loop ref pivot js arr i)"

definition partition_lomuto :: "Aircraft \<Rightarrow> Aircraft list \<Rightarrow> int \<Rightarrow> int \<Rightarrow> Aircraft list \<times> int" where
  "partition_lomuto ref arr low high =
     (let pivot = arr ! nat high in
      case partition_loop ref pivot [nat low..<nat high] arr (low - 1) of
        (arr1, i) \<Rightarrow> (swap (nat (i + 1)) (nat high) arr1, i + 1))"

lemma partition_loop_index:
  "i \<le> snd (partition_loop ref pivot js arr i)
   \<and> snd (partition_loop ref pivot js arr i) \<le> i + int (length js)"
proof (induction js arbitrary: arr i)
  case Nil
  show ?case by simp
next
  case (Cons j js)
  show ?case
    using Cons.IH [of "i + 1" "swap (nat (i + 1)) j arr"] Cons.IH [of i arr]
    by auto
qed

lemma partition_index:
  assumes "(arr1, parti) = partition_lomuto ref arr low high"
  shows "low < high \<longrightarrow> low \<le> parti \<and> parti \<le> high"
proof -
  obtain arr0 i where L:
    "partition_loop ref (arr ! nat high) [nat low..<nat high] arr (low - 1) = (arr0, i)"
    by (cases "partition_loop ref (arr ! nat high) [nat low..<nat high] arr (low - 1)")
  from partition_loop_index [of "low - 1" ref "arr ! nat high" "[nat low..<nat high]" arr] L
  have "low - 1 \<le> i" "i \<le> low - 1 + int (nat high - nat low)" by simp_all
  moreover have "parti = i + 1"
    using assms by (simp add: partition_lomuto_def L)
  ultimately show ?thesis by (auto split: if_splits)
qed

text \<open>
  \<^verbatim>\<open>sort_agents\<close>: the array is sorted in place, so the second recursive call works on
  what the first one left.
\<close>

function sort_agents :: "Aircraft \<Rightarrow> Aircraft list \<Rightarrow> int \<Rightarrow> int \<Rightarrow> Aircraft list" where
  "sort_agents ref arr low high =
     (if low < high
      then (case partition_lomuto ref arr low high of
              (arr1, parti) \<Rightarrow>
                sort_agents ref (sort_agents ref arr1 low (parti - 1)) (parti + 1) high)
      else arr)"
  by pat_completeness auto
termination
  apply (relation "measure (\<lambda>(ref, arr, low, high). nat (high - low))")
    apply simp
   apply (drule partition_index, simp)
  apply (drule partition_index, simp)
  done

declare sort_agents.simps [simp del]

subsection \<open>Constructing an aircraft\<close>

text \<open>
  The random source is the sequence \<open>rnd\<close> of the values that \<^verbatim>\<open>random.random()\<close>
  returns, read from a cursor; \<^verbatim>\<open>random.uniform(a, b)\<close> is \<open>a + (b - a) * random()\<close>.
\<close>

definition uniform :: "real \<Rightarrow> real \<Rightarrow> real \<Rightarrow> real" where
  "uniform a b u = a + (b - a) * u"

text \<open>
  \<^verbatim>\<open>Aircraft.__init__\<close>, returning the aircraft and the cursor after its draws. A
  training mode other than the three scenarios leaves the position unset, and the
  heading computation then raises AttributeError, as does the circle scenario without
  a radius. \<^verbatim>\<open>[1] * 4 * k\<close> is empty for negative \<open>k\<close>, so the final assertion fails
  exactly for a negative sensor capacity. The third entry of the observation is a
  quotient of two equal floats: where the source yields not-a-number (distance 0), the
  model has HOL's \<open>0 / 0 = 0\<close>; nothing below depends on that entry.
\<close>

definition Aircraft_init ::
  "MultiAircraftEnv \<Rightarrow> (nat \<Rightarrow> real) \<Rightarrow> nat \<Rightarrow> py_error + (Aircraft \<times> nat)" where
  "Aircraft_init env rnd c =
     (let v = MIN_V; turn_rate = 0;
          pos =
            (if env_training_mode env = ''circle'' then
               (case env_circle_radius env of
                  None \<Rightarrow> Inl AttributeError
                | Some r \<Rightarrow>
                    let init_position_angle = uniform (- pi) pi (rnd c)
                    in Inr ((r * cos init_position_angle, r * sin init_position_angle,
                             r * cos (init_position_angle + pi),
                             r * sin (init_position_angle + pi)), c + 1))
             else if env_training_mode env = ''annulus'' then
               (let init_r = uniform INNER_RADIUS OUTTER_RADIUS (rnd c);
                    dest_r = uniform INNER_RADIUS OUTTER_RADIUS (rnd (c + 1));
                    init_position_angle = uniform (- pi) pi (rnd (c + 2))
                in Inr ((init_r * cos init_position_angle, init_r * sin init_position_angle,
                         dest_r * cos (init_position_angle + pi),
                         dest_r * sin (init_position_angle + pi)), c + 3))
             else if env_training_mode env = ''square'' then
               Inr ((AIRSPACE_WIDTH * uniform 0 1 (rnd c),
                     AIRSPACE_WIDTH * uniform 0 1 (rnd (c + 1)),
                     AIRSPACE_WIDTH * uniform 0 1 (rnd (c + 2)),
                     AIRSPACE_WIDTH * uniform 0 1 (rnd (c + 3))), c + 4)
             else Inl AttributeError)
      in case pos of
           Inl e \<Rightarrow> Inl e
         | Inr ((x, y, dest_x, dest_y), c') \<Rightarrow>
             let heading = norm_angle (atan2 (dest_y - y) (dest_x - x));
                 dist_to_dest = sqrt ((dest_y - y)\<^sup>2 + (dest_x - x)\<^sup>2);
                 obs = [(v - MIN_V) / MAX_V,
                        turn_rate / MAX_TURN_RATE,
                        dist_to_dest / dist_to_dest,
                        norm_angle (atan2 (dest_y - y) (dest_x - x) - heading) / pi]
                       @ replicate (4 * nat (env_sensor_capacity env)) 1
             in if int (length obs) = 4 + 4 * env_sensor_capacity env
                then Inr (\<lparr> ac_v = v, ac_turn_rate = turn_rate, ac_x = x, ac_y = y,
                            ac_dest_x = dest_x, ac_dest_y = dest_y, ac_heading = heading,
                            ac_dist_to_dest = dist_to_dest,
                            ac_init_dist_to_dest = dist_to_dest,
                            ac_prev_dist_to_dest = dist_to_dest,
                            ac_obs = obs \<rparr>, c')
                else Inl AssertionError)"

subsection \<open>Observations\<close>

definition get_pairwise_obs :: "Aircraft \<Rightarrow> Aircraft \<Rightarrow> real list" where
  "get_pairwise_obs self intruder =
     (let intruder_pos_angle = atan2 (ac_y intruder - ac_y self) (ac_x intruder - ac_x self)
      in [agent_dist self intruder / SENSING_RANGE,
          norm_angle (intruder_pos_angle - ac_heading self) / pi,
          norm_angle (ac_heading intruder - ac_heading self) / pi,
          ac_v intruder / MAX_V])"

text \<open>The intruders of \<open>self\<close>: the agents of the environment in sensing range, in the
  collection's order (\<open>self\<close> is at distance 0 and so never among them).\<close>

definition intruders_of :: "MultiAircraftEnv \<Rightarrow> Aircraft \<Rightarrow> Aircraft list" where
  "intruders_of env self =
     filter (\<lambda>agent. agent_dist self agent > 0 \<and> agent_dist self agent \<le> SENSING_RANGE)
        (env_aircraft env)"

text \<open>The loop \<^verbatim>\<open>for i in range(self.env.sensor_capacity)\<close> of the closest mode.\<close>

fun closest_loop :: "Aircraft \<Rightarrow> Aircraft list \<Rightarrow> nat list \<Rightarrow> real list \<Rightarrow> real list" where
  "closest_loop self intruders [] obs = obs"
| "closest_loop self intruders (i # is) obs =
     (if i < length intruders
      then closest_loop self intruders is (obs @ get_pairwise_obs self (intruders ! i))
      else closest_loop self intruders is (obs @ TERM_PAIRWISE_OBS))"

text \<open>
  \<^verbatim>\<open>Aircraft.get_observation\<close>. The method stores the vector in \<^verbatim>\<open>self.obs\<close> and returns
  it: the model returns the aircraft with the new \<open>ac_obs\<close>, which is the returned
  vector. The sector mode and any other mode add nothing, and the assertion on the
  length is the last step. The third entry divides by \<open>init_dist_to_dest\<close> (see the
  constructor for the case 0).
\<close>

definition get_observation :: "MultiAircraftEnv \<Rightarrow> Aircraft \<Rightarrow> py_error + Aircraft" where
  "get_observation env self =
     (let obs0 = [ac_v self / MAX_V,
                  ac_turn_rate self / MAX_TURN_RATE,
                  ac_dist_to_dest self / ac_init_dist_to_dest self,
                  norm_angle (atan2 (ac_dest_y self - ac_y self) (ac_dest_x self - ac_x self)
                              - ac_heading self) / pi];
          intruders = intruders_of env self;
          obs1 =
            (if env_sensor_mode env = ''sector'' then obs0
             else if env_sensor_mode env = ''closest'' then
               (if length intruders > 0
                then closest_loop self
                       (sort_agents self intruders 0 (int (length intruders) - 1))
                       [0..<nat (env_sensor_capacity env)] obs0
                else obs0 @ concat (replicate (nat (env_sensor_capacity env)) TERM_PAIRWISE_OBS))
             else obs0)
      in if int (length obs1) = 4 + 4 * env_sensor_capacity env
         then Inr (self\<lparr> ac_obs := obs1 \<rparr>)
         else Inl AssertionError)"

subsection \<open>Reward\<close>

text \<open>
  \<^verbatim>\<open>Aircraft.nmac\<close> reads the entries \<open>4 * (i + 1)\<close> of the stored observation; an index
  beyond the vector raises IndexError. The threshold is \<open>NMAC_RANGE / SENSING_RANGE\<close>
  with true division, \<open>0.15\<close>.
\<close>

definition nmac :: "MultiAircraftEnv \<Rightarrow> Aircraft \<Rightarrow> py_error + bool" where
  "nmac env self =
     (let intruder_dist_ind = map (\<lambda>i. 4 * (i + 1)) [0..<nat (env_sensor_capacity env)]
      in if \<exists>j \<in> set intruder_dist_ind. length (ac_obs self) \<le> j then Inl IndexError
         else Inr (if \<exists>j \<in> set intruder_dist_ind. ac_obs self ! j < NMAC_RANGE / SENSING_RANGE
                   then True else False))"

definition arrival :: "Aircraft \<Rightarrow> bool" where
  "arrival self = (if ac_dist_to_dest self < DEST_THRESHOLD then True else False)"

definition reward :: "MultiAircraftEnv \<Rightarrow> Aircraft \<Rightarrow> py_error + real" where
  "reward env self =
     (let reward0 = 0;
          reward1 = (if arrival self then reward0 + env_rew_arrival env
                     else reward0 + env_rew_closing env
                            * (ac_prev_dist_to_dest self - ac_dist_to_dest self))
      in case nmac env self of
           Inl e \<Rightarrow> Inl e
         | Inr b \<Rightarrow>
             let reward2 = (if b then reward1 + env_rew_nmac env else reward1);
                 reward3 = (if \<bar>ac_turn_rate self\<bar> > 0.7 * MAX_TURN_RATE
                            then reward2 + env_rew_large_turnrate env * \<bar>ac_turn_rate self\<bar>
                            else reward2)
             in Inr reward3)"

subsection \<open>Population control\<close>

text \<open>\<^verbatim>\<open>del xs[i]\<close> and \<^verbatim>\<open>xs.insert(i, a)\<close> for an index inside the list.\<close>

definition list_del :: "nat \<Rightarrow> 'a list \<Rightarrow> 'a list" where
  "list_del i xs = take i xs @ drop (Suc i) xs"

definition list_insert :: "nat \<Rightarrow> 'a \<Rightarrow> 'a list \<Rightarrow> 'a list" where
  "list_insert i a xs = take i xs @ a # drop i xs"

text \<open>
  The constant-population branch: \<^verbatim>\<open>for i in range(len(self.aircraft))\<close>, the range
  fixed before the loop. The constructor may raise; the error then leaves the method.
\<close>

fun replace_loop ::
  "MultiAircraftEnv \<Rightarrow> (nat \<Rightarrow> real) \<Rightarrow> nat list \<Rightarrow> Aircraft list \<Rightarrow> nat
   \<Rightarrow> py_error + (Aircraft list \<times> nat)" where
  "replace_loop env rnd [] arr c = Inr (arr, c)"
| "replace_loop env rnd (i # is) arr c =
     (if length arr \<le> i then Inl IndexError
      else if arrival (arr ! i) then
        (case Aircraft_init env rnd c of
           Inl e \<Rightarrow> Inl e
         | Inr (a, c') \<Rightarrow> replace_loop env rnd is (list_insert i a (list_del i arr)) c')
      else replace_loop env rnd is arr c)"

text \<open>
  The other branch: \<^verbatim>\<open>while i < len(self.aircraft)\<close>, with \<open>i\<close> incremented in every
  round, also after a deletion.
\<close>

function remove_loop :: "Aircraft list \<Rightarrow> nat \<Rightarrow> Aircraft list" where
  "remove_loop arr i =
     (if i < length arr
      then (if arrival (arr ! i) then remove_loop (list_del i arr) (i + 1)
            else remove_loop arr (i + 1))
      else arr)"
  by pat_completeness auto
termination
  by (relation "measure (\<lambda>(arr, i). length arr - i)") (auto simp: list_del_def)

definition n_agents_control ::
  "MultiAircraftEnv \<Rightarrow> (nat \<Rightarrow> real) \<Rightarrow> nat \<Rightarrow> py_error + (MultiAircraftEnv \<times> nat)" where
  "n_agents_control env rnd c =
     (if env_constant_n_agents env then
        (case replace_loop env rnd [0..<length (env_aircraft env)] (env_aircraft env) c of
           Inl e \<Rightarrow> Inl e
         | Inr (arr, c') \<Rightarrow> Inr (env\<lparr> env_aircraft := arr \<rparr>, c'))
      else Inr (env\<lparr> env_aircraft := remove_loop (env_aircraft env) 0 \<rparr>, c))"

subsection \<open>One environment step\<close>

text \<open>
  \<^verbatim>\<open>np.reshape(actions, (n, m))\<close> of a flat vector: its \<open>n\<close> rows of \<open>m\<close> entries, or
  ValueError when the size is not \<open>n * m\<close>.
\<close>

definition np_reshape :: "real list \<Rightarrow> nat \<Rightarrow> nat \<Rightarrow> py_error + real list list" where
  "np_reshape actions n m =
     (if length actions = n * m
      then Inr (map (\<lambda>i. take m (drop (i * m) actions)) [0..<n])
      else Inl ValueError)"

fun apply_actions_loop ::
  "real list list \<Rightarrow> nat list \<Rightarrow> Aircraft list \<Rightarrow> py_error + Aircraft list" where
  "apply_actions_loop act_vec [] arr = Inr arr"
| "apply_actions_loop act_vec (i # is) arr =
     (if length arr \<le> i then Inl IndexError
      else if length act_vec \<le> i then Inl IndexError
      else case apply_action (arr ! i) (act_vec ! i) of
             Inl e \<Rightarrow> Inl e
           | Inr a \<Rightarrow> apply_actions_loop act_vec is (arr[i := a]))"

fun observe_loop ::
  "MultiAircraftEnv \<Rightarrow> nat list \<Rightarrow> real list list
   \<Rightarrow> py_error + (MultiAircraftEnv \<times> real list list)" where
  "observe_loop env [] obs = Inr (env, obs)"
| "observe_loop env (i # is) obs =
     (if length (env_aircraft env) \<le> i then Inl IndexError
      else case get_observation env (env_aircraft env ! i) of
             Inl e \<Rightarrow> Inl e
           | Inr a \<Rightarrow>
               observe_loop (env\<lparr> env_aircraft := (env_aircraft env)[i := a] \<rparr>) is
                 (obs @ [ac_obs a]))"

fun reward_loop ::
  "MultiAircraftEnv \<Rightarrow> nat list \<Rightarrow> real list \<Rightarrow> py_error + real list" where
  "reward_loop env [] rewards = Inr rewards"
| "reward_loop env (i # is) rewards =
     (if length (env_aircraft env) \<le> i then Inl IndexError
      else case reward env (env_aircraft env ! i) of
             Inl e \<Rightarrow> Inl e
           | Inr r \<Rightarrow> reward_loop env is (rewards[i := r]))"

record step_result =
  res_obs :: "real list list"
  res_rewards :: "real list"
  res_done :: bool

text \<open>
  \<^verbatim>\<open>MultiAircraftEnv.step\<close>, returning the triple (the fourth component is always the
  empty dictionary) and the environment after the call. \<^verbatim>\<open>np.zeros(n_agents)\<close> raises
  ValueError for a negative count. Rendering draws and changes nothing. The done flag
  is computed after the actions are applied and before the counter is incremented.
\<close>

definition step ::
  "MultiAircraftEnv \<Rightarrow> real list \<Rightarrow> py_error + (step_result \<times> MultiAircraftEnv)" where
  "step env actions =
     (if env_n_agents env < 0 then Inl ValueError
      else let n = nat (env_n_agents env) in
      case np_reshape actions n ACTION_DIM of
        Inl e \<Rightarrow> Inl e
      | Inr act_vec \<Rightarrow>
      case apply_actions_loop act_vec [0..<n] (env_aircraft env) of
        Inl e \<Rightarrow> Inl e
      | Inr arr \<Rightarrow>
      let env1 = env\<lparr> env_aircraft := arr \<rparr>;
          done = (length (env_aircraft env1) = 0 \<or> env_t env1 > MAX_TIME_STEPS)
      in
      case observe_loop env1 [0..<n] [] of
        Inl e \<Rightarrow> Inl e
      | Inr (env2, obs) \<Rightarrow>
      case reward_loop env2 [0..<n] (replicate n 0) of
        Inl e \<Rightarrow> Inl e
      | Inr rewards \<Rightarrow>
      let env3 = env2\<lparr> env_t := env_t env2 + 1 \<rparr> in
      if env_reward_mech env3 = ''local''
      then Inr (\<lparr> res_obs = obs, res_rewards = rewards, res_done = done \<rparr>, env3)
      else Inr (\<lparr> res_obs = obs,
                  res_rewards = replicate n (sum_list rewards / real n),
                  res_done = done \<rparr>, env3))"

section \<open>numpy's elementwise operations\<close>

text \<open>
  An elementwise operation on two vectors: equal lengths, or one of length 1 that is
  broadcast; any other pair of lengths raises ValueError.
\<close>

definition np_broadcast ::
  "('a \<Rightarrow> 'a \<Rightarrow> 'a) \<Rightarrow> 'a list \<Rightarrow> 'a list \<Rightarrow> py_error + 'a list" where
  "np_broadcast f xs ys =
     (if length xs = length ys then Inr (map2 f xs ys)
      else if length ys = 1 then Inr (map (\<lambda>x. f x (ys ! 0)) xs)
      else if length xs = 1 then Inr (map (\<lambda>y. f (xs ! 0) y) ys)
      else Inl ValueError)"

text \<open>A function that may raise, applied to every element in order.\<close>

fun map_result :: "('a \<Rightarrow> py_error + 'b) \<Rightarrow> 'a list \<Rightarrow> py_error + 'b list" where
  "map_result f [] = Inr []"
| "map_result f (x # xs) =
     (case f x of
        Inl e \<Rightarrow> Inl e
      | Inr y \<Rightarrow> (case map_result f xs of Inl e \<Rightarrow> Inl e | Inr ys \<Rightarrow> Inr (y # ys)))"

section \<open>rltools/algos/dqn.py\<close>

text \<open>
  A replay-memory entry: per agent the observation, the action, the reward and the
  successor observation, and the done flag as \<^verbatim>\<open>int(done)\<close>.
\<close>

record transition =
  tr_obs :: "real list list"
  tr_action :: "real list"
  tr_reward :: "real list"
  tr_succ_obs :: "real list list"
  tr_done :: int

record batch =
  obs_B_Do :: "real list list"
  actions_B_Da :: "real list"
  rewards_B :: "real list"
  succ_obs_B_Do :: "real list list"
  done_B :: "real list"

text \<open>
  The inner loop of \<^verbatim>\<open>DQN._pack_into_batch\<close> over the agents of one transition: the
  rows are written at \<open>i * n_agents + i_a\<close>, in increasing order, so the batch is the
  concatenation of the rows. A transition with fewer than \<open>n_agents\<close> entries raises
  IndexError; an observation that does not fit a row of width \<open>obs_dim\<close> (the
  environment's \<^verbatim>\<open>observation_space.shape[0]\<close>) raises ValueError, a single number
  being broadcast over the row.
\<close>

definition fit_row :: "nat \<Rightarrow> real list \<Rightarrow> py_error + real list" where
  "fit_row obs_dim row =
     (if length row = obs_dim then Inr row
      else if length row = 1 then Inr (replicate obs_dim (row ! 0))
      else Inl ValueError)"

fun pack_agents :: "nat \<Rightarrow> transition \<Rightarrow> nat list \<Rightarrow> batch \<Rightarrow> py_error + batch" where
  "pack_agents obs_dim tr [] b = Inr b"
| "pack_agents obs_dim tr (i_a # is) b =
     (if length (tr_obs tr) \<le> i_a then Inl IndexError
      else case fit_row obs_dim (tr_obs tr ! i_a) of Inl e \<Rightarrow> Inl e | Inr o_row \<Rightarrow>
      if length (tr_action tr) \<le> i_a then Inl IndexError
      else if length (tr_reward tr) \<le> i_a then Inl IndexError
      else if length (tr_succ_obs tr) \<le> i_a then Inl IndexError
      else case fit_row obs_dim (tr_succ_obs tr ! i_a) of Inl e \<Rightarrow> Inl e | Inr s_row \<Rightarrow>
        pack_agents obs_dim tr is
          (b\<lparr> obs_B_Do := obs_B_Do b @ [o_row],
              actions_B_Da := actions_B_Da b @ [tr_action tr ! i_a],
              rewards_B := rewards_B b @ [tr_reward tr ! i_a],
              succ_obs_B_Do := succ_obs_B_Do b @ [s_row],
              done_B := done_B b @ [of_int (tr_done tr)] \<rparr>))"

fun pack_transitions :: "nat \<Rightarrow> nat \<Rightarrow> transition list \<Rightarrow> batch \<Rightarrow> py_error + batch" where
  "pack_transitions n_agents obs_dim [] b = Inr b"
| "pack_transitions n_agents obs_dim (tr # trs) b =
     (case pack_agents obs_dim tr [0..<n_agents] b of
        Inl e \<Rightarrow> Inl e
      | Inr b' \<Rightarrow> pack_transitions n_agents obs_dim trs b')"

definition pack_into_batch :: "nat \<Rightarrow> nat \<Rightarrow> transition list \<Rightarrow> py_error + batch" where
  "pack_into_batch n_agents obs_dim transitions =
     pack_transitions n_agents obs_dim transitions
       \<lparr> obs_B_Do = [], actions_B_Da = [], rewards_B = [], succ_obs_B_Do = [], done_B = [] \<rparr>"

text \<open>
  The target computation of \<^verbatim>\<open>DQN.step\<close> (the two statements after the batch is
  packed). The target network is not in this file: its two methods
  \<^verbatim>\<open>compute_qactions\<close> and \<^verbatim>\<open>compute_qvals\<close> are parameters, as is \<^verbatim>\<open>obsfeat_fn\<close>;
  the TensorFlow session is left out. The sum and the products are numpy's.
\<close>

definition batch_qtargets ::
  "real \<Rightarrow> (real list list \<Rightarrow> 'f) \<Rightarrow> (nat \<Rightarrow> 'f \<Rightarrow> 'a) \<Rightarrow> ('f \<Rightarrow> 'a \<Rightarrow> real list)
   \<Rightarrow> nat \<Rightarrow> batch \<Rightarrow> py_error + real list" where
  "batch_qtargets discount obsfeat_fn compute_qactions compute_qvals batch_size b =
     (let batch_succ_target_actions_B_Da =
            compute_qactions batch_size (obsfeat_fn (succ_obs_B_Do b));
          qvals = compute_qvals (obsfeat_fn (succ_obs_B_Do b)) batch_succ_target_actions_B_Da
      in case np_broadcast (*) (map (\<lambda>d. discount * d) (done_B b)) qvals of
           Inl e \<Rightarrow> Inl e
         | Inr dq \<Rightarrow> np_broadcast (+) (rewards_B b) dq)"

text \<open>Both statements on the transitions sampled from the memory.\<close>

definition td_targets ::
  "nat \<Rightarrow> nat \<Rightarrow> real \<Rightarrow> (real list list \<Rightarrow> 'f) \<Rightarrow> (nat \<Rightarrow> 'f \<Rightarrow> 'a)
   \<Rightarrow> ('f \<Rightarrow> 'a \<Rightarrow> real list) \<Rightarrow> nat \<Rightarrow> transition list \<Rightarrow> py_error + real list" where
  "td_targets n_agents obs_dim discount obsfeat_fn compute_qactions compute_qvals batch_size
     transitions_B =
     (case pack_into_batch n_agents obs_dim transitions_B of
        Inl e \<Rightarrow> Inl e
      | Inr b \<Rightarrow>
          batch_qtargets discount obsfeat_fn compute_qactions compute_qvals batch_size b)"

section \<open>rltools/nn.py\<close>

subsection \<open>The checkpoint hash\<close>

text \<open>
  An array is the list of its entries in flattened order, which is what
  \<^verbatim>\<open>np.mean\<close>, \<^verbatim>\<open>np.var\<close> and \<^verbatim>\<open>np.argmax\<close> read. \<^verbatim>\<open>np.argmax\<close> returns the first
  index of the maximum and raises ValueError on an empty array.
\<close>

definition np_mean :: "real list \<Rightarrow> real" where
  "np_mean a = sum_list a / real (length a)"

definition np_var :: "real list \<Rightarrow> real" where
  "np_var a = np_mean (map (\<lambda>x. (x - np_mean a)\<^sup>2) a)"

fun argmax_from :: "real list \<Rightarrow> nat \<Rightarrow> nat \<Rightarrow> real \<Rightarrow> nat" where
  "argmax_from [] i best m = best"
| "argmax_from (x # xs) i best m =
     (if m < x then argmax_from xs (i + 1) i x else argmax_from xs (i + 1) best m)"

definition np_argmax :: "real list \<Rightarrow> py_error + nat" where
  "np_argmax a = (case a of [] \<Rightarrow> Inl ValueError | x # xs \<Rightarrow> Inr (argmax_from xs 1 0 x))"

text \<open>\<^verbatim>\<open>sep.join(parts)\<close>.\<close>

fun str_join :: "string \<Rightarrow> string list \<Rightarrow> string" where
  "str_join sep [] = []"
| "str_join sep [p] = p"
| "str_join sep (p # q # ps) = p @ sep @ str_join sep (q # ps)"

text \<open>
  The inner \<^verbatim>\<open>hash_array\<close>: the format \<^verbatim>\<open>'%.10f,%.10f,%d'\<close> applied to the mean, the
  variance and the arg-max index. The decimal formatting of a float and of an integer
  are parameters (\<open>fmt_f\<close> for \<^verbatim>\<open>%.10f\<close>, \<open>fmt_d\<close> for \<^verbatim>\<open>%d\<close>).
\<close>

definition hash_array :: "(real \<Rightarrow> string) \<Rightarrow> (nat \<Rightarrow> string) \<Rightarrow> real list \<Rightarrow> py_error + string" where
  "hash_array fmt_f fmt_d a =
     (case np_argmax a of
        Inl e \<Rightarrow> Inl e
      | Inr k \<Rightarrow> Inr (fmt_f (np_mean a) @ '','' @ fmt_f (np_var a) @ '','' @ fmt_d k))"

text \<open>
  \<^verbatim>\<open>Model._hash_name2array\<close>. The list of pairs (name, fingerprint) is built and sorted
  (pairs of strings, compared lexicographically by character code); the generator
  then yields the literal \<^verbatim>\<open>'%s %s'\<close> for every pair \<open>(n, h)\<close>, since the format string
  is not applied to the pair. \<open>sha1\<close> stands for
  \<^verbatim>\<open>hashlib.sha1(s.encode('utf-8')).hexdigest()\<close>.
\<close>

definition hash_name2array ::
  "(real \<Rightarrow> string) \<Rightarrow> (nat \<Rightarrow> string) \<Rightarrow> (string \<Rightarrow> string)
   \<Rightarrow> (string \<times> real list) list \<Rightarrow> py_error + string" where
  "hash_name2array fmt_f fmt_d sha1 name2array =
     (case map_result (\<lambda>(name, a). case hash_array fmt_f fmt_d a of
                                       Inl e \<Rightarrow> Inl e
                                     | Inr h \<Rightarrow> Inr (name, h)) name2array of
        Inl e \<Rightarrow> Inl e
      | Inr pairs \<Rightarrow>
          Inr (sha1 (str_join ''|'' (map (\<lambda>(n, h). ''%s %s'') (sort pairs)))))"

text \<open>
  What the specification describes: the format applied to each sorted pair, so that
  the digest is taken over the names and fingerprints.
\<close>

definition spec_hash_name2array ::
  "(real \<Rightarrow> string) \<Rightarrow> (nat \<Rightarrow> string) \<Rightarrow> (string \<Rightarrow> string)
   \<Rightarrow> (string \<times> real list) list \<Rightarrow> py_error + string" where
  "spec_hash_name2array fmt_f fmt_d sha1 name2array =
     (case map_result (\<lambda>(name, a). case hash_array fmt_f fmt_d a of
                                       Inl e \<Rightarrow> Inl e
                                     | Inr h \<Rightarrow> Inr (name, h)) name2array of
        Inl e \<Rightarrow> Inl e
      | Inr pairs \<Rightarrow>
          Inr (sha1 (str_join ''|'' (map (\<lambda>(n, h). n @ '' '' @ h) (sort pairs)))))"

subsection \<open>The running-statistics standardizer\<close>

text \<open>
  The accumulators are floats, and the code never raises on a value that is not a
  finite number: it stores it and computes with it. Such values are values here too.
  \<open>xreal\<close> is the reals with the two infinities and not-a-number, with the arithmetic
  of floats on them (rounding and overflow are not modelled, and a zero divisor is the
  positive zero): a sum of opposite infinities, zero times an infinity, zero by zero,
  an infinity by an infinity and the square root of a negative number are
  not-a-number; a nonzero number by zero is an infinity; a number by an infinity is
  zero.
\<close>

datatype xreal = Fin real | PInf | MInf | NaN

fun xneg :: "xreal \<Rightarrow> xreal" where
  "xneg (Fin a) = Fin (- a)"
| "xneg PInf = MInf"
| "xneg MInf = PInf"
| "xneg NaN = NaN"

fun xadd :: "xreal \<Rightarrow> xreal \<Rightarrow> xreal" where
  "xadd (Fin a) (Fin b) = Fin (a + b)"
| "xadd NaN y = NaN"
| "xadd x NaN = NaN"
| "xadd PInf MInf = NaN"
| "xadd MInf PInf = NaN"
| "xadd PInf y = PInf"
| "xadd x PInf = PInf"
| "xadd MInf y = MInf"
| "xadd x MInf = MInf"

definition xsub :: "xreal \<Rightarrow> xreal \<Rightarrow> xreal" where
  "xsub x y = xadd x (xneg y)"

fun xmul :: "xreal \<Rightarrow> xreal \<Rightarrow> xreal" where
  "xmul (Fin a) (Fin b) = Fin (a * b)"
| "xmul NaN y = NaN"
| "xmul x NaN = NaN"
| "xmul (Fin a) PInf = (if a = 0 then NaN else if 0 < a then PInf else MInf)"
| "xmul (Fin a) MInf = (if a = 0 then NaN else if 0 < a then MInf else PInf)"
| "xmul PInf (Fin b) = (if b = 0 then NaN else if 0 < b then PInf else MInf)"
| "xmul MInf (Fin b) = (if b = 0 then NaN else if 0 < b then MInf else PInf)"
| "xmul PInf PInf = PInf"
| "xmul MInf MInf = PInf"
| "xmul PInf MInf = MInf"
| "xmul MInf PInf = MInf"

fun xdiv :: "xreal \<Rightarrow> xreal \<Rightarrow> xreal" where
  "xdiv (Fin a) (Fin b) =
     (if b = 0 then (if a = 0 then NaN else if 0 < a then PInf else MInf) else Fin (a / b))"
| "xdiv NaN y = NaN"
| "xdiv x NaN = NaN"
| "xdiv (Fin a) PInf = Fin 0"
| "xdiv (Fin a) MInf = Fin 0"
| "xdiv PInf (Fin b) = (if 0 \<le> b then PInf else MInf)"
| "xdiv MInf (Fin b) = (if 0 \<le> b then MInf else PInf)"
| "xdiv x y = NaN"

fun xsqrt :: "xreal \<Rightarrow> xreal" where
  "xsqrt (Fin a) = (if a < 0 then NaN else Fin (sqrt a))"
| "xsqrt PInf = PInf"
| "xsqrt MInf = NaN"
| "xsqrt NaN = NaN"

text \<open>
  The state of a \<^verbatim>\<open>Standardizer\<close>: the two constructor constants and the three
  TensorFlow variables (\<open>count\<close> of shape (1), the other two of shape (1, dim), kept as
  their row). The count is a sum of the initial count and of batch sizes, a finite
  number. A 2-D array is the list of its rows.
\<close>

record Standardizer =
  st_eps :: real
  st_dim :: nat
  st_count :: real
  st_mean_1_D :: "xreal list"
  st_meansq_1_D :: "xreal list"

text \<open>\<^verbatim>\<open>Standardizer.__init__\<close>: no argument is checked.\<close>

definition Standardizer_init :: "nat \<Rightarrow> real \<Rightarrow> real \<Rightarrow> real \<Rightarrow> real \<Rightarrow> Standardizer" where
  "Standardizer_init D eps init_count init_mean init_meansq =
     \<lparr> st_eps = eps, st_dim = D, st_count = init_count,
       st_mean_1_D = replicate D (Fin init_mean),
       st_meansq_1_D = replicate D (Fin init_meansq) \<rparr>"

definition get_mean :: "Standardizer \<Rightarrow> xreal list" where
  "get_mean s = st_mean_1_D s"

definition get_meansq :: "Standardizer \<Rightarrow> xreal list" where
  "get_meansq s = st_meansq_1_D s"

definition get_count :: "Standardizer \<Rightarrow> real" where
  "get_count s = st_count s"

text \<open>
  \<^verbatim>\<open>get_stdev\<close> evaluates \<^verbatim>\<open>tf.sqrt(meansq - tf.square(mean) + eps)\<close>, column by
  column; the square root of a negative number is not-a-number, and nothing is raised.
\<close>

definition get_stdev :: "Standardizer \<Rightarrow> xreal list" where
  "get_stdev s =
     map2 (\<lambda>msq m. xsqrt (xadd (xsub msq (xmul m m)) (Fin (st_eps s))))
       (st_meansq_1_D s) (st_mean_1_D s)"

text \<open>
  \<^verbatim>\<open>a.mean(axis=0, keepdims=True)\<close> of an array with \<open>D\<close> columns: with no rows every
  column mean is not-a-number.
\<close>

definition col_mean :: "nat \<Rightarrow> real list list \<Rightarrow> xreal list" where
  "col_mean D pts =
     (if pts = [] then replicate D NaN
      else map (\<lambda>j. Fin (sum_list (map (\<lambda>row. row ! j) pts) / real (length pts))) [0..<D])"

text \<open>
  \<^verbatim>\<open>Standardizer.update\<close>. The assertion asks for \<open>dim\<close> columns (a batch without
  rows is taken to have them); past it nothing is raised, whatever the weight
  \<open>a = count / (count + num)\<close> and the column means are: an empty batch and a zero
  \<open>count + num\<close> store accumulators that are not finite.
\<close>

definition update :: "Standardizer \<Rightarrow> real list list \<Rightarrow> py_error + Standardizer" where
  "update s points_N_D =
     (if \<not> (\<forall>row \<in> set points_N_D. length row = st_dim s) then Inl AssertionError
      else let num = real (length points_N_D);
               count = get_count s;
               a = xdiv (Fin count) (Fin (count + num));
               mean = map2 (\<lambda>m b. xadd (xmul a m) (xmul (xsub (Fin 1) a) b)) (get_mean s)
                        (col_mean (st_dim s) points_N_D);
               meansq = map2 (\<lambda>m b. xadd (xmul a m) (xmul (xsub (Fin 1) a) b)) (get_meansq s)
                          (col_mean (st_dim s) (map (map (\<lambda>x. x\<^sup>2)) points_N_D))
      in Inr (s\<lparr> st_mean_1_D := mean, st_meansq_1_D := meansq, st_count := count + num \<rparr>))"

text \<open>
  \<^verbatim>\<open>standardize\<close> and \<^verbatim>\<open>unstandardize\<close>. The input is 2-D by its type, and its
  entries are finite numbers. The row vectors are broadcast against every row of the
  input; a width that does not fit raises ValueError. The results may hold values that
  are not finite.
\<close>

definition standardize :: "Standardizer \<Rightarrow> real list list \<Rightarrow> bool \<Rightarrow> py_error + xreal list list" where
  "standardize s x_B_D centered =
     (case (if centered
            then map_result (\<lambda>row. np_broadcast xsub (map Fin row) (get_mean s)) x_B_D
            else Inr (map (map (\<lambda>x. xsub (Fin x) (Fin 0))) x_B_D)) of
        Inl e \<Rightarrow> Inl e
      | Inr xc \<Rightarrow>
          map_result
            (\<lambda>row. np_broadcast xdiv row (map (\<lambda>t. xadd t (Fin (st_eps s))) (get_stdev s))) xc)"

definition unstandardize :: "Standardizer \<Rightarrow> xreal list list \<Rightarrow> bool \<Rightarrow> py_error + xreal list list" where
  "unstandardize s y_B_D centered =
     (case map_result
             (\<lambda>row. np_broadcast xmul row (map (\<lambda>t. xadd t (Fin (st_eps s))) (get_stdev s)))
             y_B_D of
        Inl e \<Rightarrow> Inl e
      | Inr ys \<Rightarrow>
          if centered then map_result (\<lambda>row. np_broadcast xadd row (get_mean s)) ys
          else Inr (map (map (\<lambda>y. xadd y (Fin 0))) ys))"

text \<open>
  The states a standardizer can be in: what the constructor builds from any arguments,
  and every state an \<^verbatim>\<open>update\<close> that passes its assertion leads to.
\<close>

inductive reachable :: "Standardizer \<Rightarrow> bool" where
  reachable_init:
    "reachable (Standardizer_init D eps init_count init_mean init_meansq)"
| reachable_update:
    "reachable s \<Longrightarrow> update s points_N_D = Inr s' \<Longrightarrow> reachable s'"

section \<open>Example inputs\<close>

text \<open>The environment constructed with the default arguments.\<close>

definition env_default :: MultiAircraftEnv where
  "env_default = MultiAircraftEnv_init True 10 False ''circle'' ''closest'' 4 2000 False False
      (1 / 1000) (1 / 1000) (1 / 1000) (1 / 1000) ''local'' 15 2.5 (- 15) (- 0.1)"

text \<open>An aircraft that closed 10 m on its destination in the last step, with no
  intruder in its four sensor slots.\<close>

definition ac_closing :: Aircraft where
  "ac_closing = \<lparr> ac_v = 15, ac_turn_rate = 0, ac_x = 10, ac_y = 0, ac_dest_x = 1000,
      ac_dest_y = 0, ac_heading = 0, ac_dist_to_dest = 990, ac_init_dist_to_dest = 1000,
      ac_prev_dist_to_dest = 1000, ac_obs = [1 / 3, 0, 99 / 100, 0] @ replicate 16 1 \<rparr>"

text \<open>Two aircraft within 100 m of their destinations.\<close>

definition ac_arrived :: Aircraft where
  "ac_arrived = \<lparr> ac_v = 15, ac_turn_rate = 0, ac_x = 950, ac_y = 0, ac_dest_x = 1000,
      ac_dest_y = 0, ac_heading = 0, ac_dist_to_dest = 50, ac_init_dist_to_dest = 1000,
      ac_prev_dist_to_dest = 65, ac_obs = [1 / 3, 0, 1 / 20, 0] @ replicate 16 1 \<rparr>"

definition ac_arrived2 :: Aircraft where
  "ac_arrived2 = \<lparr> ac_v = 15, ac_turn_rate = 0, ac_x = 3000, ac_y = 2960, ac_dest_x = 3000,
      ac_dest_y = 3000, ac_heading = pi / 2, ac_dist_to_dest = 40, ac_init_dist_to_dest = 2500,
      ac_prev_dist_to_dest = 55, ac_obs = [1 / 3, 0, 2 / 125, 0] @ replicate 16 1 \<rparr>"

text \<open>
  An environment constructed with \<^verbatim>\<open>n_agents=1, max_time_steps=10\<close>, reset into the
  square scenario, in its twelfth step: one aircraft, the counter at 11.
\<close>

definition env_short :: MultiAircraftEnv where
  "env_short = (MultiAircraftEnv_init True 1 False ''circle'' ''closest'' 4 10 False False
      (1 / 1000) (1 / 1000) (1 / 1000) (1 / 1000) ''local'' 15 2.5 (- 15) (- 0.1))
      \<lparr> env_t := 11, env_aircraft := [ac_closing], env_training_mode := ''square'' \<rparr>"

text \<open>Two single-agent transitions with reward 1, one ending the episode, one not.\<close>

definition tr_terminal :: transition where
  "tr_terminal = \<lparr> tr_obs = [[0]], tr_action = [0], tr_reward = [1], tr_succ_obs = [[0]],
                    tr_done = 1 \<rparr>"

definition tr_running :: transition where
  "tr_running = \<lparr> tr_obs = [[0]], tr_action = [0], tr_reward = [1], tr_succ_obs = [[0]],
                    tr_done = 0 \<rparr>"

section \<open>Notions used in the statements\<close>

text \<open>The four entries that slot \<open>i\<close> of an observation holds for a ranked list of
  intruders: the pairwise observation of the \<open>i\<close>-th one, or the terminal block.\<close>

definition slot_block :: "Aircraft \<Rightarrow> Aircraft list \<Rightarrow> nat \<Rightarrow> real list" where
  "slot_block self intruders i =
     (if i < length intruders then get_pairwise_obs self (intruders ! i) else TERM_PAIRWISE_OBS)"

text \<open>
  The standard deviation is defined: the accumulators have the configured width and are
  finite numbers, and in every column \<open>meansq - mean\<^sup>2 + eps\<close> is not negative.
\<close>

definition stdev_defined :: "Standardizer \<Rightarrow> bool" where
  "stdev_defined s \<longleftrightarrow>
     length (st_mean_1_D s) = st_dim s \<and> length (st_meansq_1_D s) = st_dim s
     \<and> list_all2 (\<lambda>m msq. case (m, msq) of
                             (Fin a, Fin b) \<Rightarrow> 0 \<le> b - a\<^sup>2 + st_eps s
                           | _ \<Rightarrow> False)
          (st_mean_1_D s) (st_meansq_1_D s)"

text \<open>
  The accumulators are statistics of data: finite, of the configured width, with a
  count that is not negative and in every column a mean square at least the square of
  the mean.
\<close>

definition consistent :: "Standardizer \<Rightarrow> bool" where
  "consistent s \<longleftrightarrow>
     length (st_mean_1_D s) = st_dim s \<and> length (st_meansq_1_D s) = st_dim s
     \<and> 0 \<le> st_count s
     \<and> list_all2 (\<lambda>m msq. case (m, msq) of (Fin a, Fin b) \<Rightarrow> a\<^sup>2 \<le> b | _ \<Rightarrow> False)
          (st_mean_1_D s) (st_meansq_1_D s)"

text \<open>A standardizer whose initial mean 2 and mean square 1 are those of no data.\<close>

definition st_bad :: Standardizer where
  "st_bad = Standardizer_init 1 (1 / 1000000) 0 2 1"

section \<open>Properties\<close>

subsection \<open>Angle normalisation\<close>

lemma py_fmod_range:
  assumes "0 < b"
  shows "0 \<le> py_fmod a b" and "py_fmod a b < b"
proof -
  define q :: real where "q = of_int \<lfloor>a / b\<rfloor>"
  have ab: "a = (a / b) * b" using assms by simp
  have "q \<le> a / b" unfolding q_def by simp
  then have "q * b \<le> (a / b) * b"
    using assms by (intro mult_right_mono) simp_all
  then have lo: "q * b \<le> a" using ab by simp
  have "a / b < q + 1" unfolding q_def by linarith
  then have "(a / b) * b < (q + 1) * b"
    using assms by (intro mult_strict_right_mono) simp_all
  then have hi: "a < (q + 1) * b" using ab by simp
  show "0 \<le> py_fmod a b"
    using lo by (simp add: py_fmod_def q_def mult.commute)
  show "py_fmod a b < b"
    using hi by (simp add: py_fmod_def q_def algebra_simps)
qed

lemma norm_angle_range: "- pi \<le> norm_angle a" "norm_angle a < pi"
  using py_fmod_range [of "2 * pi" "a + pi"] by (simp_all add: norm_angle_def)

text \<open>
  Claim C3. The claim: every angle is mapped into the half-open interval \<open>(-pi, pi]\<close>,
  and both \<open>pi\<close> and \<open>-pi\<close> are mapped to \<open>pi\<close>. The code maps both to \<open>-pi\<close>: its
  interval is closed on the left, \<open>[-pi, pi)\<close>, against the comment above the function.
\<close>

theorem norm_angle_boundary:
  "norm_angle pi = - pi \<and> norm_angle (- pi) = - pi \<and> \<not> (- pi < norm_angle pi)"
  by (simp add: norm_angle_def py_fmod_def)

subsection \<open>The constructor's noise attributes\<close>

text \<open>
  Claim C10. Whatever the eighteen constructor arguments are, the four noise
  attributes of the constructed environment are all \<open>1e-3\<close>: the four noise arguments
  are not read.
\<close>

theorem init_ignores_noise_arguments:
  "env_speed_noise (MultiAircraftEnv_init cas n cna tm sm sc mts oh ro
       speed_noise turn_rate_noise position_noise angle_noise rm ra rc rn rl) = 1 / 1000
   \<and> env_turn_rate_noise (MultiAircraftEnv_init cas n cna tm sm sc mts oh ro
       speed_noise turn_rate_noise position_noise angle_noise rm ra rc rn rl) = 1 / 1000
   \<and> env_position_noise (MultiAircraftEnv_init cas n cna tm sm sc mts oh ro
       speed_noise turn_rate_noise position_noise angle_noise rm ra rc rn rl) = 1 / 1000
   \<and> env_angle_noise (MultiAircraftEnv_init cas n cna tm sm sc mts oh ro
       speed_noise turn_rate_noise position_noise angle_noise rm ra rc rn rl) = 1 / 1000"
  by (simp add: MultiAircraftEnv_init_def)

subsection \<open>Reward\<close>

lemma nmac_value:
  assumes "int (length (ac_obs self)) = 4 + 4 * env_sensor_capacity env"
  shows "nmac env self
         = Inr (\<exists>i < nat (env_sensor_capacity env). ac_obs self ! (4 * (i + 1)) < 15 / 100)"
proof -
  have "\<forall>i < nat (env_sensor_capacity env). 4 * (i + 1) < length (ac_obs self)"
    using assms by auto
  then show ?thesis
    by (auto simp: nmac_def Let_def NMAC_RANGE_def SENSING_RANGE_def not_le)
qed

text \<open>
  Claim C6. For an aircraft whose stored observation has the asserted length, the
  reward is the sum of three terms: the arrival bonus or else the closing gain times the
  distance closed, the NMAC penalty when an intruder-distance entry is below 0.15, and
  the turn-rate penalty when the turn rate exceeds 0.7 of the maximum. So the aircraft
  that went from 1000 to 990 with gain 2.5 and no penalty gets exactly 25, and an
  arrived aircraft with bonus 15 and no penalty gets exactly 15.
\<close>

theorem reward_additive:
  assumes "int (length (ac_obs self)) = 4 + 4 * env_sensor_capacity env"
  shows "reward env self
         = Inr ((if ac_dist_to_dest self < 100 then env_rew_arrival env
                 else env_rew_closing env * (ac_prev_dist_to_dest self - ac_dist_to_dest self))
              + (if \<exists>i < nat (env_sensor_capacity env). ac_obs self ! (4 * (i + 1)) < 15 / 100
                 then env_rew_nmac env else 0)
              + (if \<bar>ac_turn_rate self\<bar> > 0.7 * MAX_TURN_RATE
                 then env_rew_large_turnrate env * \<bar>ac_turn_rate self\<bar> else 0))
       \<and> (ac_prev_dist_to_dest self = 1000 \<and> ac_dist_to_dest self = 990
            \<and> \<not> (\<exists>i < nat (env_sensor_capacity env). ac_obs self ! (4 * (i + 1)) < 15 / 100)
            \<and> \<bar>ac_turn_rate self\<bar> \<le> 0.7 * MAX_TURN_RATE \<and> env_rew_closing env = 2.5
          \<longrightarrow> reward env self = Inr 25)
       \<and> (ac_dist_to_dest self < 100 \<and> env_rew_arrival env = 15
            \<and> \<not> (\<exists>i < nat (env_sensor_capacity env). ac_obs self ! (4 * (i + 1)) < 15 / 100)
            \<and> \<bar>ac_turn_rate self\<bar> \<le> 0.7 * MAX_TURN_RATE
          \<longrightarrow> reward env self = Inr 15)"
proof (intro conjI impI)
  show gen: "reward env self
         = Inr ((if ac_dist_to_dest self < 100 then env_rew_arrival env
                 else env_rew_closing env * (ac_prev_dist_to_dest self - ac_dist_to_dest self))
              + (if \<exists>i < nat (env_sensor_capacity env). ac_obs self ! (4 * (i + 1)) < 15 / 100
                 then env_rew_nmac env else 0)
              + (if \<bar>ac_turn_rate self\<bar> > 0.7 * MAX_TURN_RATE
                 then env_rew_large_turnrate env * \<bar>ac_turn_rate self\<bar> else 0))"
    unfolding reward_def Let_def nmac_value [OF assms] arrival_def DEST_THRESHOLD_def
    by auto
  {
    assume "ac_prev_dist_to_dest self = 1000 \<and> ac_dist_to_dest self = 990
            \<and> \<not> (\<exists>i < nat (env_sensor_capacity env). ac_obs self ! (4 * (i + 1)) < 15 / 100)
            \<and> \<bar>ac_turn_rate self\<bar> \<le> 0.7 * MAX_TURN_RATE \<and> env_rew_closing env = 2.5"
    then show "reward env self = Inr 25"
      unfolding gen by auto
  }
  {
    assume "ac_dist_to_dest self < 100 \<and> env_rew_arrival env = 15
            \<and> \<not> (\<exists>i < nat (env_sensor_capacity env). ac_obs self ! (4 * (i + 1)) < 15 / 100)
            \<and> \<bar>ac_turn_rate self\<bar> \<le> 0.7 * MAX_TURN_RATE"
    then show "reward env self = Inr 15"
      unfolding gen by auto
  }
qed

theorem reward_additive_witness:
  "reward env_default ac_closing = Inr 25 \<and> reward env_default ac_arrived = Inr 15"
proof -
  have len: "int (length (ac_obs ac_closing)) = 4 + 4 * env_sensor_capacity env_default"
    by (simp add: ac_closing_def env_default_def MultiAircraftEnv_init_def)
  have far: "\<not> (\<exists>i < nat (env_sensor_capacity env_default).
                 ac_obs ac_closing ! (4 * (i + 1)) < 15 / 100)"
    by (auto simp: ac_closing_def env_default_def MultiAircraftEnv_init_def nth_append)
  have turn: "\<bar>ac_turn_rate ac_closing\<bar> \<le> 0.7 * MAX_TURN_RATE"
    by (simp add: ac_closing_def MAX_TURN_RATE_def)
  have vals: "ac_prev_dist_to_dest ac_closing = 1000" "ac_dist_to_dest ac_closing = 990"
    "env_rew_closing env_default = 2.5"
    by (simp_all add: ac_closing_def env_default_def MultiAircraftEnv_init_def)
  have len': "int (length (ac_obs ac_arrived)) = 4 + 4 * env_sensor_capacity env_default"
    by (simp add: ac_arrived_def env_default_def MultiAircraftEnv_init_def)
  have far': "\<not> (\<exists>i < nat (env_sensor_capacity env_default).
                 ac_obs ac_arrived ! (4 * (i + 1)) < 15 / 100)"
    by (auto simp: ac_arrived_def env_default_def MultiAircraftEnv_init_def nth_append)
  have turn': "\<bar>ac_turn_rate ac_arrived\<bar> \<le> 0.7 * MAX_TURN_RATE"
    by (simp add: ac_arrived_def MAX_TURN_RATE_def)
  have vals': "ac_dist_to_dest ac_arrived < 100" "env_rew_arrival env_default = 15"
    by (simp_all add: ac_arrived_def env_default_def MultiAircraftEnv_init_def)
  show ?thesis
    using reward_additive [OF len] far turn vals reward_additive [OF len'] far' turn' vals'
    by blast
qed

subsection \<open>Applying an action\<close>

text \<open>
  Claim C7. For every action vector with its two components, whatever their values,
  \<^verbatim>\<open>apply_action\<close> leaves the speed in \<open>[MIN_V, MAX_V] = [15, 45]\<close> and the heading in
  the range of \<open>norm_angle\<close> (at least \<open>-pi\<close>, below \<open>pi\<close>); when the turn component is
  in \<open>[-1, 1]\<close>, the turn rate is at most \<open>MAX_TURN_RATE\<close> (10 degrees) in magnitude.
\<close>

theorem apply_action_bounds:
  assumes "2 \<le> length action"
  shows "\<exists>a. apply_action self action = Inr a
           \<and> MIN_V \<le> ac_v a \<and> ac_v a \<le> MAX_V \<and> MIN_V = 15 \<and> MAX_V = 45
           \<and> ac_heading a \<in> range norm_angle \<and> - pi \<le> ac_heading a \<and> ac_heading a < pi
           \<and> (\<bar>action ! 1\<bar> \<le> 1
                \<longrightarrow> \<bar>ac_turn_rate a\<bar> \<le> MAX_TURN_RATE \<and> MAX_TURN_RATE = 10 * pi / 180)"
proof -
  have tr: "\<bar>action ! 1\<bar> \<le> 1 \<Longrightarrow> \<bar>MAX_TURN_RATE * (action ! 1)\<bar> \<le> MAX_TURN_RATE"
  proof -
    assume h: "\<bar>action ! 1\<bar> \<le> 1"
    have "0 \<le> MAX_TURN_RATE" by (simp add: MAX_TURN_RATE_def)
    then have "\<bar>MAX_TURN_RATE * (action ! 1)\<bar> = MAX_TURN_RATE * \<bar>action ! 1\<bar>"
      by (simp add: abs_mult)
    also have "\<dots> \<le> MAX_TURN_RATE * 1"
      using h \<open>0 \<le> MAX_TURN_RATE\<close> by (intro mult_left_mono) simp_all
    finally show ?thesis by simp
  qed
  have mtr: "MAX_TURN_RATE = 10 * pi / 180" by (simp add: MAX_TURN_RATE_def)
  show ?thesis
    using assms tr mtr norm_angle_range
    by (auto simp: apply_action_def Let_def ACTION_IND_ACC_def ACTION_IND_TURN_def np_clip_def
        MIN_V_def MAX_V_def DT_def)
qed

theorem apply_action_bounds_witness:
  "\<exists>a. apply_action ac_closing [2, 1 / 2] = Inr a \<and> 15 \<le> ac_v a \<and> ac_v a \<le> 45
       \<and> \<bar>ac_turn_rate a\<bar> \<le> 10 * pi / 180"
  using apply_action_bounds [of "[2, 1 / 2]" ac_closing] by auto

subsection \<open>The TD target of DQN\<close>

text \<open>For vectors of one length, the target is elementwise
  \<open>reward + (discount * done) * Q\<close>.\<close>

lemma batch_qtargets_formula:
  assumes "length (done_B b) = length (rewards_B b)"
    and "length (compute_qvals (obsfeat_fn (succ_obs_B_Do b))
                   (compute_qactions batch_size (obsfeat_fn (succ_obs_B_Do b))))
         = length (rewards_B b)"
  shows "batch_qtargets discount obsfeat_fn compute_qactions compute_qvals batch_size b
         = Inr (map2 (+) (rewards_B b)
                  (map2 (*) (map (\<lambda>d. discount * d) (done_B b))
                     (compute_qvals (obsfeat_fn (succ_obs_B_Do b))
                        (compute_qactions batch_size (obsfeat_fn (succ_obs_B_Do b))))))"
  using assms by (simp add: batch_qtargets_def Let_def np_broadcast_def)

text \<open>
  Claim C1. The claim: the target is \<open>reward + discount * (1 - done) * Q\<close>, so the reward
  alone for a transition that ends the episode. The code multiplies by \<open>done\<close> itself.
  With reward 1, discount 1/2 and a target-network value of 4, the target of the
  transition with \<open>done = 1\<close> is 3 (the claim: 1), and that of the transition with
  \<open>done = 0\<close> is 1 (the claim: 3), each alone and both in one batch of two.
\<close>

theorem td_targets_done_factor:
  "td_targets 1 1 (1 / 2) (\<lambda>obs. obs) (\<lambda>n feat. [0::nat]) (\<lambda>feat acts. [4]) 1 [tr_terminal]
     = Inr [3]
   \<and> td_targets 1 1 (1 / 2) (\<lambda>obs. obs) (\<lambda>n feat. [0::nat]) (\<lambda>feat acts. [4]) 1 [tr_running]
     = Inr [1]
   \<and> td_targets 1 1 (1 / 2) (\<lambda>obs. obs) (\<lambda>n feat. [0::nat, 0]) (\<lambda>feat acts. [4, 4]) 2
         [tr_terminal, tr_running]
     = Inr [3, 1]"
  by (simp add: td_targets_def pack_into_batch_def batch_qtargets_def fit_row_def
      np_broadcast_def tr_terminal_def tr_running_def)

subsection \<open>The checkpoint hash\<close>

lemma map_result_length: "map_result f xs = Inr ys \<Longrightarrow> length ys = length xs"
  by (induction xs arbitrary: ys) (auto split: sum.splits)

text \<open>The digest depends on the number of variables only.\<close>

lemma hash_name2array_count:
  assumes "hash_name2array fmt_f fmt_d sha1 xs = Inr h"
  shows "h = sha1 (str_join ''|'' (replicate (length xs) ''%s %s''))"
proof -
  from assms obtain pairs where
    p: "map_result (\<lambda>(name, a). case hash_array fmt_f fmt_d a of
                                    Inl e \<Rightarrow> Inl e
                                  | Inr h \<Rightarrow> Inr (name, h)) xs = Inr pairs"
    and h: "h = sha1 (str_join ''|'' (map (\<lambda>(n, h). ''%s %s'') (sort pairs)))"
    by (auto simp: hash_name2array_def split: sum.splits)
  have "map (\<lambda>(n, h). ''%s %s'') (sort pairs) = replicate (length (sort pairs)) ''%s %s''"
    by (induction "sort pairs") (auto simp: map_replicate_const case_prod_beta)
  then show ?thesis using h map_result_length [OF p] by simp
qed

text \<open>
  Claim C2. The claim: the hash is the SHA-1 digest of the names and value fingerprints
  of the variables, so it depends on the stored values. In the code the format string
  \<^verbatim>\<open>'%s %s'\<close> is joined as it is, once per variable: two variable sets with the names
  \<open>W\<close> and \<open>b\<close> and different values have the same hash, the digest of
  \<^verbatim>\<open>'%s %s|%s %s'\<close>, where the described hash is the digest of the sorted names and
  fingerprints.
\<close>

theorem hash_ignores_values:
  "hash_name2array fmt_f fmt_d sha1 [(''b'', [0]), (''W'', [1, 3])] = Inr (sha1 ''%s %s|%s %s'')
   \<and> hash_name2array fmt_f fmt_d sha1 [(''b'', [3]), (''W'', [5, 7])] = Inr (sha1 ''%s %s|%s %s'')
   \<and> spec_hash_name2array fmt_f fmt_d sha1 [(''b'', [0]), (''W'', [1, 3])]
       = Inr (sha1 (''W '' @ fmt_f 2 @ '','' @ fmt_f 1 @ '','' @ fmt_d 1 @ ''|''
                    @ ''b '' @ fmt_f 0 @ '','' @ fmt_f 0 @ '','' @ fmt_d 0))"
  by (simp add: hash_name2array_def spec_hash_name2array_def hash_array_def np_argmax_def
      np_mean_def np_var_def power2_eq_square)

subsection \<open>The done flag of a step\<close>

lemma apply_actions_loop_length:
  "apply_actions_loop act_vec is arr = Inr arr' \<Longrightarrow> length arr' = length arr"
  by (induction "is" arbitrary: arr) (auto split: if_splits sum.splits)

text \<open>Whenever a step returns, its flag compares the counter with the module constant.\<close>

lemma step_done:
  assumes "step env actions = Inr (res, env')"
  shows "res_done res = (length (env_aircraft env) = 0 \<or> env_t env > MAX_TIME_STEPS)"
  using assms
  by (auto simp: step_def Let_def split: if_splits sum.splits prod.splits
      dest!: apply_actions_loop_length)

lemma upt4: "[0..<4] = [0, 1, 2, 3]"
  by (simp add: upt_rec)

text \<open>
  Claim C4. The claim: the flag is true iff the collection is empty or the counter
  exceeds the configured \<open>max_time_steps\<close>, for every configured value. The code
  compares with the constant \<open>MAX_TIME_STEPS = 2000\<close> and never reads the attribute: in
  the environment configured with \<open>max_time_steps = 10\<close> whose counter is 11, the step
  returns with the flag false.
\<close>

theorem step_done_ignores_max_time_steps:
  "(\<exists>res env'. step env_short [0, 0] = Inr (res, env') \<and> res_done res = False)
   \<and> env_aircraft env_short \<noteq> [] \<and> env_t env_short > env_max_time_steps env_short"
  by (simp add: step_def env_short_def MultiAircraftEnv_init_def np_reshape_def ACTION_DIM_def
      apply_action_def ACTION_IND_ACC_def ACTION_IND_TURN_def Let_def get_observation_def
      intruders_of_def agent_dist_def reward_def nmac_def TERM_PAIRWISE_OBS_def upt4
      MAX_TIME_STEPS_def ac_closing_def length_concat sum_list_replicate)

subsection \<open>Population control\<close>

text \<open>In the constant-population branch, deleting and inserting at the same index
  replaces the aircraft in place, and the collection keeps its length.\<close>

lemma list_insert_del: "i < length xs \<Longrightarrow> list_insert i a (list_del i xs) = xs[i := a]"
  by (simp add: list_insert_def list_del_def upd_conv_take_nth_drop min_def)

lemma replace_loop_length:
  "replace_loop env rnd is arr c = Inr (arr', c') \<Longrightarrow> length arr' = length arr"
proof (induction "is" arbitrary: arr c)
  case Nil
  then show ?case by simp
next
  case (Cons i "is")
  show ?case
  proof (cases "arrival (arr ! i)")
    case True
    with Cons.prems obtain a c1 where
      "i < length arr" "replace_loop env rnd is (list_insert i a (list_del i arr)) c1 = Inr (arr', c')"
      by (auto split: if_splits sum.splits)
    with Cons.IH show ?thesis by (fastforce simp: list_insert_del)
  next
    case False
    with Cons.prems Cons.IH show ?thesis by (auto split: if_splits)
  qed
qed

text \<open>
  Claim C5. The claim: after \<^verbatim>\<open>n_agents_control\<close> no aircraft that had arrived remains,
  also for consecutive arrived aircraft. The removing loop increments its index after
  a deletion too, so it skips the aircraft that moves into the freed position: of two
  consecutive arrived aircraft the second one stays.
\<close>

theorem remove_loop_skips:
  "n_agents_control
     (env_default \<lparr> env_training_mode := ''square'',
                    env_aircraft := [ac_arrived, ac_arrived2, ac_closing] \<rparr>) rnd c
     = Inr (env_default \<lparr> env_training_mode := ''square'',
                          env_aircraft := [ac_arrived2, ac_closing] \<rparr>, c)
   \<and> arrival ac_arrived \<and> arrival ac_arrived2 \<and> \<not> env_constant_n_agents env_default"
  by (simp add: n_agents_control_def env_default_def MultiAircraftEnv_init_def list_del_def
      arrival_def ac_arrived_def ac_arrived2_def ac_closing_def DEST_THRESHOLD_def)

subsection \<open>Ranking by distance: the in-place sort\<close>

lemma length_swap [simp]: "length (swap i j arr) = length arr"
  by (simp add: swap_def)

lemma nth_swap:
  "i < length arr \<Longrightarrow> j < length arr
   \<Longrightarrow> swap i j arr ! k = (if k = j then arr ! i else if k = i then arr ! j else arr ! k)"
  by (simp add: swap_def nth_list_update)

lemma mset_swap_agents:
  "i < length arr \<Longrightarrow> j < length arr \<Longrightarrow> mset (swap i j arr) = mset arr"
  unfolding swap_def by (simp add: mset_swap)

lemma closer_iff: "closer a b ref \<longleftrightarrow> agent_dist a ref \<le> agent_dist b ref"
  by (simp add: closer_def)

lemma partition_loop_inv:
  assumes "partition_loop ref pivot [j..<h] arr (int m - 1) = (arr', i')"
    and "l \<le> m" "m \<le> j" "j \<le> h" "h < length arr"
    and "\<forall>k. l \<le> k \<and> k < m \<longrightarrow> agent_dist (arr ! k) ref \<le> agent_dist pivot ref"
    and "\<forall>k. m \<le> k \<and> k < j \<longrightarrow> \<not> agent_dist (arr ! k) ref \<le> agent_dist pivot ref"
  shows "\<exists>m'. i' = int m' - 1 \<and> m \<le> m' \<and> m' \<le> h
           \<and> length arr' = length arr \<and> mset arr' = mset arr
           \<and> (\<forall>k. k < l \<or> h \<le> k \<longrightarrow> arr' ! k = arr ! k)
           \<and> (\<forall>k. l \<le> k \<and> k < m' \<longrightarrow> agent_dist (arr' ! k) ref \<le> agent_dist pivot ref)
           \<and> (\<forall>k. m' \<le> k \<and> k < h \<longrightarrow> \<not> agent_dist (arr' ! k) ref \<le> agent_dist pivot ref)"
  using assms
proof (induction "h - j" arbitrary: j m arr)
  case 0
  then have "j = h" by simp
  with 0 show ?case by auto
next
  case (Suc n)
  then have jh: "j < h" by simp
  then have upt: "[j..<h] = j # [Suc j..<h]" by (simp add: upt_conv_Cons)
  have n: "n = h - Suc j" using Suc.hyps(2) by simp
  show ?case
  proof (cases "closer (arr ! j) pivot ref")
    case True
    let ?arr = "swap m j arr"
    have mj: "m < length arr" "j < length arr" using Suc.prems jh by simp_all
    have run: "partition_loop ref pivot [Suc j..<h] ?arr (int (Suc m) - 1) = (arr', i')"
      using Suc.prems(1) True upt by (simp add: nat_add_distrib)
    have lo: "\<forall>k. l \<le> k \<and> k < Suc m
                \<longrightarrow> agent_dist (?arr ! k) ref \<le> agent_dist pivot ref"
      using Suc.prems(3,6) True mj by (auto simp: nth_swap closer_iff less_Suc_eq)
    have hi: "\<forall>k. Suc m \<le> k \<and> k < Suc j
                \<longrightarrow> \<not> agent_dist (?arr ! k) ref \<le> agent_dist pivot ref"
      using Suc.prems(3,7) mj by (auto simp: nth_swap less_Suc_eq)
    from Suc.hyps(1) [OF n run _ _ _ _ lo hi] Suc.prems jh
    obtain m' where m': "i' = int m' - 1" "Suc m \<le> m'" "m' \<le> h"
      "length arr' = length ?arr" "mset arr' = mset ?arr"
      "\<forall>k. k < l \<or> h \<le> k \<longrightarrow> arr' ! k = ?arr ! k"
      "\<forall>k. l \<le> k \<and> k < m' \<longrightarrow> agent_dist (arr' ! k) ref \<le> agent_dist pivot ref"
      "\<forall>k. m' \<le> k \<and> k < h \<longrightarrow> \<not> agent_dist (arr' ! k) ref \<le> agent_dist pivot ref"
      by auto
    have outer: "\<forall>k. k < l \<or> h \<le> k \<longrightarrow> arr' ! k = arr ! k"
      using m'(6) Suc.prems(2,3) jh mj by (auto simp: nth_swap)
    show ?thesis
      using m' outer mj by (intro exI [of _ m']) (simp add: mset_swap_agents)
  next
    case False
    have run: "partition_loop ref pivot [Suc j..<h] arr (int m - 1) = (arr', i')"
      using Suc.prems(1) False upt by simp
    have hi: "\<forall>k. m \<le> k \<and> k < Suc j
                \<longrightarrow> \<not> agent_dist (arr ! k) ref \<le> agent_dist pivot ref"
      using Suc.prems(7) False by (auto simp: closer_iff less_Suc_eq)
    from Suc.hyps(1) [OF n run Suc.prems(2) _ _ Suc.prems(5) Suc.prems(6) hi] Suc.prems jh
    show ?thesis by auto
  qed
qed


lemma partition_lomuto_spec:
  assumes part: "partition_lomuto ref arr low high = (arr1, p)"
    and rng: "0 \<le> low" "low \<le> high" "high < int (length arr)"
  shows "\<exists>q. p = int q \<and> nat low \<le> q \<and> q \<le> nat high
           \<and> length arr1 = length arr \<and> mset arr1 = mset arr
           \<and> (\<forall>k. k < nat low \<or> nat high < k \<longrightarrow> arr1 ! k = arr ! k)
           \<and> (\<forall>k. nat low \<le> k \<and> k < q
                 \<longrightarrow> agent_dist (arr1 ! k) ref \<le> agent_dist (arr1 ! q) ref)
           \<and> (\<forall>k. q < k \<and> k \<le> nat high
                 \<longrightarrow> \<not> agent_dist (arr1 ! k) ref \<le> agent_dist (arr1 ! q) ref)"
proof -
  define l h where "l = nat low" and "h = nat high"
  have lh: "l \<le> h" "h < length arr" "low = int l" "high = int h"
    using rng by (simp_all add: l_def h_def)
  obtain arr' i' where loop:
    "partition_loop ref (arr ! h) [l..<h] arr (int l - 1) = (arr', i')"
    by (cases "partition_loop ref (arr ! h) [l..<h] arr (int l - 1)")
  from partition_loop_inv [OF loop, of l] lh
  obtain m' where m': "i' = int m' - 1" "l \<le> m'" "m' \<le> h"
    "length arr' = length arr" "mset arr' = mset arr"
    "\<forall>k. k < l \<or> h \<le> k \<longrightarrow> arr' ! k = arr ! k"
    "\<forall>k. l \<le> k \<and> k < m' \<longrightarrow> agent_dist (arr' ! k) ref \<le> agent_dist (arr ! h) ref"
    "\<forall>k. m' \<le> k \<and> k < h \<longrightarrow> \<not> agent_dist (arr' ! k) ref \<le> agent_dist (arr ! h) ref"
    by auto
  have res: "arr1 = swap m' h arr'" "p = int m'"
    using part loop m'(1) by (simp_all add: partition_lomuto_def Let_def lh(3,4))
  have bnd: "m' < length arr'" "h < length arr'" using m' lh by simp_all
  have piv: "arr1 ! m' = arr ! h"
    using m'(6) bnd by (auto simp: res nth_swap)
  have "\<forall>k. k < l \<or> h < k \<longrightarrow> arr1 ! k = arr ! k"
    using m'(2,3,6) bnd by (auto simp: res nth_swap)
  moreover have "\<forall>k. l \<le> k \<and> k < m'
      \<longrightarrow> agent_dist (arr1 ! k) ref \<le> agent_dist (arr1 ! m') ref"
    using m'(3,7) bnd unfolding piv by (auto simp: res nth_swap)
  moreover have "\<forall>k. m' < k \<and> k \<le> h
      \<longrightarrow> \<not> agent_dist (arr1 ! k) ref \<le> agent_dist (arr1 ! m') ref"
    using m'(8) bnd unfolding piv by (auto simp: res nth_swap)
  moreover have "length arr1 = length arr" "mset arr1 = mset arr"
    using m'(4,5) bnd by (simp_all add: res mset_swap_agents)
  ultimately show ?thesis
    using res(2) m'(2,3) unfolding l_def h_def by (intro exI [of _ m']) simp
qed


lemma range_elems:
  assumes len: "length xs = length ys" and ms: "mset xs = mset ys"
    and outer: "\<forall>k. k < l \<or> h < k \<longrightarrow> xs ! k = ys ! k"
    and k: "l \<le> k" "k \<le> h" "h < length xs"
  shows "\<exists>k'. l \<le> k' \<and> k' \<le> h \<and> xs ! k = ys ! k'"
proof -
  define mid :: "'a list \<Rightarrow> 'a list" where "mid zs = take (Suc h - l) (drop l zs)" for zs
  have dec: "zs = take l zs @ mid zs @ drop (Suc h) zs" for zs :: "'a list"
  proof -
    have "drop l zs = mid zs @ drop (Suc h - l) (drop l zs)"
      unfolding mid_def by (rule append_take_drop_id [symmetric])
    moreover have "drop (Suc h - l) (drop l zs) = drop (Suc h) zs"
      using k by simp
    ultimately show ?thesis by (metis append_take_drop_id)
  qed
  have pre: "take l xs = take l ys"
    using len outer k by (intro nth_take_lemma) auto
  have post: "drop (Suc h) xs = drop (Suc h) ys"
    using len outer by (intro nth_equalityI) auto
  have "mset (take l xs) + mset (mid xs) + mset (drop (Suc h) xs)
        = mset (take l ys) + mset (mid ys) + mset (drop (Suc h) ys)"
    using ms dec [of xs] dec [of ys] by (metis mset_append add.assoc)
  then have "mset (mid xs) = mset (mid ys)"
    by (simp add: pre post)
  then have sets: "set (mid xs) = set (mid ys)"
    by (rule mset_eq_setD)
  have "xs ! k = mid xs ! (k - l)" "k - l < length (mid xs)"
    using k by (simp_all add: mid_def)
  then have "xs ! k \<in> set (mid ys)"
    using sets nth_mem by metis
  then obtain t where t: "t < length (mid ys)" "mid ys ! t = xs ! k"
    by (auto simp: in_set_conv_nth)
  then have "l + t \<le> h" "ys ! (l + t) = xs ! k"
    using k len by (auto simp: mid_def)
  then show ?thesis by (intro exI [of _ "l + t"]) simp
qed


lemma sort_agents_spec:
  "0 \<le> low \<Longrightarrow> high < int (length arr) \<Longrightarrow>
     length (sort_agents ref arr low high) = length arr
     \<and> mset (sort_agents ref arr low high) = mset arr
     \<and> (\<forall>k. int k < low \<or> high < int k \<longrightarrow> sort_agents ref arr low high ! k = arr ! k)
     \<and> (\<forall>i j. low \<le> int i \<and> i \<le> j \<and> int j \<le> high
            \<longrightarrow> agent_dist (sort_agents ref arr low high ! i) ref
                \<le> agent_dist (sort_agents ref arr low high ! j) ref)"
proof (induction ref arr low high rule: sort_agents.induct)
  case (1 ref arr low high)
  show ?case
  proof (cases "low < high")
    case False
    then have "sort_agents ref arr low high = arr"
      by (subst sort_agents.simps) auto
    moreover have "i = j" if "low \<le> int i" "i \<le> j" "int j \<le> high" for i j
      using that False "1.prems" by linarith
    ultimately show ?thesis by auto
  next
    case True
    obtain arr1 p where part: "partition_lomuto ref arr low high = (arr1, p)"
      by (cases "partition_lomuto ref arr low high")
    from partition_lomuto_spec [OF part] True "1.prems"
    obtain q where q: "p = int q" "nat low \<le> q" "q \<le> nat high"
      "length arr1 = length arr" "mset arr1 = mset arr"
      "\<forall>k. k < nat low \<or> nat high < k \<longrightarrow> arr1 ! k = arr ! k"
      "\<forall>k. nat low \<le> k \<and> k < q \<longrightarrow> agent_dist (arr1 ! k) ref \<le> agent_dist (arr1 ! q) ref"
      "\<forall>k. q < k \<and> k \<le> nat high \<longrightarrow> \<not> agent_dist (arr1 ! k) ref \<le> agent_dist (arr1 ! q) ref"
      by auto
    define res1 where "res1 = sort_agents ref arr1 low (p - 1)"
    define res2 where "res2 = sort_agents ref res1 (p + 1) high"
    have res: "sort_agents ref arr low high = res2"
      using True part by (subst sort_agents.simps) (simp add: res1_def res2_def)
    have qh: "int q \<le> high" "low \<le> int q" "q < length arr"
      using q(2,3) True "1.prems" by linarith+
    have ih1: "length res1 = length arr1" "mset res1 = mset arr1"
      "\<forall>k. int k < low \<or> p - 1 < int k \<longrightarrow> res1 ! k = arr1 ! k"
      "\<forall>i j. low \<le> int i \<and> i \<le> j \<and> int j \<le> p - 1
          \<longrightarrow> agent_dist (res1 ! i) ref \<le> agent_dist (res1 ! j) ref"
      using "1.IH"(1) [OF True part [symmetric]] True "1.prems" qh q(1,4)
      unfolding res1_def by auto
    have ih2: "length res2 = length res1" "mset res2 = mset res1"
      "\<forall>k. int k < p + 1 \<or> high < int k \<longrightarrow> res2 ! k = res1 ! k"
      "\<forall>i j. p + 1 \<le> int i \<and> i \<le> j \<and> int j \<le> high
          \<longrightarrow> agent_dist (res2 ! i) ref \<le> agent_dist (res2 ! j) ref"
      using "1.IH"(2) [OF True part [symmetric]] "1.prems" qh q(1,4) ih1(1)
      unfolding res1_def res2_def by auto
    have piv: "res2 ! q = arr1 ! q"
      using ih1(3) ih2(3) q(1) by simp
    have left: "agent_dist (res2 ! k) ref \<le> agent_dist (arr1 ! q) ref"
      if "low \<le> int k" "k < q" for k
    proof -
      have "res2 ! k = res1 ! k" using ih2(3) that q(1) by simp
      moreover have "\<exists>k'. nat low \<le> k' \<and> k' \<le> q - 1 \<and> res1 ! k = arr1 ! k'"
        using that qh q(1,4) ih1(1,2,3)
        by (intro range_elems) auto
      ultimately show ?thesis using q(7) that by auto
    qed
    have right: "agent_dist (arr1 ! q) ref \<le> agent_dist (res2 ! k) ref"
      if "q < k" "int k \<le> high" for k
    proof -
      have "\<exists>k'. Suc q \<le> k' \<and> k' \<le> nat high \<and> res2 ! k = res1 ! k'"
        using that "1.prems" q(1,4) ih1(1) ih2(1,2,3)
        by (intro range_elems) auto
      then obtain k' where k': "Suc q \<le> k'" "k' \<le> nat high" "res2 ! k = res1 ! k'" by auto
      then have "res1 ! k' = arr1 ! k'" using ih1(3) q(1) by simp
      then show ?thesis using q(8) k' by (metis Suc_le_lessD linear)
    qed
    have sorted: "agent_dist (res2 ! i) ref \<le> agent_dist (res2 ! j) ref"
      if ij: "low \<le> int i" "i \<le> j" "int j \<le> high" for i j
    proof -
      consider "j < q" | "q < i" | "i \<le> q" "q \<le> j" by linarith
      then show ?thesis
      proof cases
        case 1
        then have "res2 ! i = res1 ! i" "res2 ! j = res1 ! j"
          using ih2(3) ij q(1) by simp_all
        then show ?thesis using ih1(4) 1 ij q(1) by simp
      next
        case 2
        then show ?thesis using ih2(4) ij q(1) by simp
      next
        case 3
        have "agent_dist (res2 ! i) ref \<le> agent_dist (arr1 ! q) ref"
          using left [of i] piv ij 3 by (cases "i = q") auto
        moreover have "agent_dist (arr1 ! q) ref \<le> agent_dist (res2 ! j) ref"
          using right [of j] piv ij 3 by (cases "j = q") auto
        ultimately show ?thesis by simp
      qed
    qed
    have outer: "res2 ! k = arr ! k" if "int k < low \<or> high < int k" for k
    proof -
      have "res2 ! k = res1 ! k" using ih2(3) that qh q(1) by auto
      also have "\<dots> = arr1 ! k" using ih1(3) that qh q(1) by auto
      also have "\<dots> = arr ! k" using q(6) that True "1.prems" by auto
      finally show ?thesis .
    qed
    show ?thesis
      unfolding res using ih1(1,2) ih2(1,2) q(4,5) sorted outer by auto
  qed
qed


subsection \<open>Observations\<close>

lemma closest_loop_blocks:
  "closest_loop self intruders is obs = obs @ concat (map (slot_block self intruders) is)"
  by (induction "is" arbitrary: obs) (simp_all add: slot_block_def)

lemma length_slot_block: "length (slot_block self intruders i) = 4"
  by (simp add: slot_block_def get_pairwise_obs_def TERM_PAIRWISE_OBS_def Let_def)

lemma concat_block_length:
  "\<forall>b \<in> set bs. length b = 4 \<Longrightarrow> length (concat bs) = 4 * length bs"
  by (induction bs) simp_all

lemma concat_block_nth:
  "\<forall>b \<in> set bs. length b = 4 \<Longrightarrow> i < length bs
   \<Longrightarrow> take 4 (drop (4 * i) (concat bs)) = bs ! i"
proof (induction bs arbitrary: i)
  case Nil
  then show ?case by simp
next
  case (Cons b bs)
  show ?case
  proof (cases i)
    case 0
    then show ?thesis using Cons.prems by simp
  next
    case (Suc i')
    then show ?thesis using Cons.prems Cons.IH [of i'] by simp
  qed
qed

text \<open>
  Claim C8. In the closest mode, for every sensor capacity \<open>k \<ge> 0\<close> and every
  collection of aircraft, \<^verbatim>\<open>get_observation\<close> returns (the assertion holds) a vector of
  length \<open>4 + 4 * k\<close> and changes nothing but the stored observation. There is a
  ranking \<open>srt\<close> of the in-range intruders, a permutation of them in ascending order of
  distance from the observer, such that slot \<open>i < k\<close> holds the pairwise observation of
  the \<open>i\<close>-th intruder of the ranking when there is one and the block \<open>[1, 1, 1, 1]\<close>
  otherwise; the intruders from the \<open>k\<close>-th on are in no slot.
\<close>

theorem get_observation_closest:
  assumes mode: "env_sensor_mode env = ''closest''" and cap: "0 \<le> env_sensor_capacity env"
  shows "\<exists>a srt. get_observation env self = Inr a
           \<and> a = self\<lparr> ac_obs := ac_obs a \<rparr>
           \<and> int (length (ac_obs a)) = 4 + 4 * env_sensor_capacity env
           \<and> mset srt = mset (intruders_of env self)
           \<and> sorted (map (\<lambda>b. agent_dist b self) srt)
           \<and> (\<forall>i < nat (env_sensor_capacity env).
                 take 4 (drop (4 + 4 * i) (ac_obs a))
                 = (if i < length srt then get_pairwise_obs self (srt ! i) else [1, 1, 1, 1]))"
proof -
  define k where "k = nat (env_sensor_capacity env)"
  define intr where "intr = intruders_of env self"
  define srt where "srt = (if length intr > 0
                           then sort_agents self intr 0 (int (length intr) - 1) else intr)"
  define obs0 where "obs0 = [ac_v self / MAX_V,
                  ac_turn_rate self / MAX_TURN_RATE,
                  ac_dist_to_dest self / ac_init_dist_to_dest self,
                  norm_angle (atan2 (ac_dest_y self - ac_y self) (ac_dest_x self - ac_x self)
                              - ac_heading self) / pi]"
  define obs1 where "obs1 = obs0 @ concat (map (slot_block self srt) [0..<k])"
  have blocks: "\<forall>b \<in> set (map (slot_block self srt) [0..<k]). length b = 4"
    by (simp add: length_slot_block)
  have len: "length obs1 = 4 + 4 * k"
    using concat_block_length [OF blocks] by (simp add: obs1_def obs0_def)
  have empty: "concat (replicate k TERM_PAIRWISE_OBS) = concat (map (slot_block self []) [0..<k])"
  proof -
    have "slot_block self [] = (\<lambda>i. TERM_PAIRWISE_OBS)"
      by (rule ext) (simp add: slot_block_def)
    then show ?thesis by (simp add: map_replicate_const)
  qed
  have "get_observation env self
        = (if int (length obs1) = 4 + 4 * env_sensor_capacity env
           then Inr (self\<lparr> ac_obs := obs1 \<rparr>) else Inl AssertionError)"
    using mode empty
    by (simp add: get_observation_def Let_def closest_loop_blocks obs1_def obs0_def srt_def
        intr_def k_def)
  then have run: "get_observation env self = Inr (self\<lparr> ac_obs := obs1 \<rparr>)"
    using len cap by (simp add: k_def)
  have ms: "mset srt = mset intr"
    using sort_agents_spec [of 0 "int (length intr) - 1" intr self] by (simp add: srt_def)
  have "agent_dist (srt ! i) self \<le> agent_dist (srt ! j) self"
    if "i \<le> j" "j < length srt" for i j
  proof (cases "length intr > 0")
    case True
    then show ?thesis
      using sort_agents_spec [of 0 "int (length intr) - 1" intr self] that
      by (simp add: srt_def)
  next
    case False
    then show ?thesis using that by (simp add: srt_def)
  qed
  then have srt_sorted: "sorted (map (\<lambda>b. agent_dist b self) srt)"
    by (simp add: sorted_iff_nth_mono)
  have slot: "take 4 (drop (4 + 4 * i) obs1)
              = (if i < length srt then get_pairwise_obs self (srt ! i) else [1, 1, 1, 1])"
    if "i < k" for i
  proof -
    have "length obs0 = 4" by (simp add: obs0_def)
    then have "take 4 (drop (4 + 4 * i) obs1)
          = take 4 (drop (4 * i) (concat (map (slot_block self srt) [0..<k])))"
      by (simp add: obs1_def)
    also have "\<dots> = map (slot_block self srt) [0..<k] ! i"
      using concat_block_nth [OF blocks, of i] that by simp
    also have "\<dots> = slot_block self srt i" using that by simp
    finally show ?thesis by (simp add: slot_block_def TERM_PAIRWISE_OBS_def numeral_eq_Suc)
  qed
  show ?thesis
    using run len cap ms srt_sorted slot
    by (intro exI [of _ "self\<lparr> ac_obs := obs1 \<rparr>"] exI [of _ srt])
       (simp add: k_def intr_def)
qed

theorem get_observation_closest_witness:
  "\<exists>a. get_observation (env_default \<lparr> env_aircraft := [ac_closing, ac_arrived] \<rparr>) ac_closing
         = Inr a \<and> length (ac_obs a) = 20"
  using get_observation_closest
    [of "env_default \<lparr> env_aircraft := [ac_closing, ac_arrived] \<rparr>" ac_closing]
  by (auto simp: env_default_def MultiAircraftEnv_init_def)

subsection \<open>The standardizer\<close>

lemma map_result_total:
  "\<forall>x \<in> set xs. f x = Inr (g x) \<Longrightarrow> map_result f xs = Inr (map g xs)"
  by (induction xs) simp_all

lemma np_broadcast_same:
  "length xs = length ys \<Longrightarrow> np_broadcast f xs ys = Inr (map2 f xs ys)"
  by (simp add: np_broadcast_def)

lemma map2_fin_sub: "map2 xsub (map Fin xs) (map Fin ys) = map Fin (map2 (-) xs ys)"
  by (induction xs ys rule: list_induct2') (simp_all add: xsub_def)

lemma map2_fin_add: "map2 xadd (map Fin xs) (map Fin ys) = map Fin (map2 (+) xs ys)"
  by (induction xs ys rule: list_induct2') simp_all

lemma map2_fin_mul: "map2 xmul (map Fin xs) (map Fin ys) = map Fin (map2 (*) xs ys)"
  by (induction xs ys rule: list_induct2') simp_all

lemma map2_fin_div:
  "0 \<notin> set ys \<Longrightarrow> map2 xdiv (map Fin xs) (map Fin ys) = map Fin (map2 (/) xs ys)"
  by (induction xs ys rule: list_induct2') simp_all

lemma fin_lists:
  assumes "list_all2 (\<lambda>m msq. case (m, msq) of (Fin a, Fin b) \<Rightarrow> P a b | _ \<Rightarrow> False) xs ys"
  shows "\<exists>as bs. xs = map Fin as \<and> ys = map Fin bs \<and> length as = length bs
           \<and> (\<forall>j < length as. P (as ! j) (bs ! j))"
  using assms
proof (induction rule: list_all2_induct)
  case Nil
  then show ?case by simp
next
  case (Cons x xs y ys)
  then obtain a b where ab: "x = Fin a" "y = Fin b" "P a b"
    by (auto split: xreal.splits)
  from Cons.IH obtain as bs where
    "xs = map Fin as" "ys = map Fin bs" "length as = length bs"
    "\<forall>j < length as. P (as ! j) (bs ! j)" by auto
  then show ?case
    using ab
    by (intro exI [of _ "a # as"] exI [of _ "b # bs"]) (auto simp: nth_Cons')
qed

lemma row_roundtrip:
  fixes row den mu :: "real list"
  assumes "length row = length den" "length mu = length den" "0 \<notin> set den"
  shows "map2 (+) (map2 (*) (map2 (/) (map2 (-) row mu) den) den) mu = row"
    and "map (\<lambda>y. y + 0) (map2 (*) (map2 (/) (map (\<lambda>x. x - 0) row) den) den) = row"
proof -
  have nz: "den ! i \<noteq> 0" if "i < length den" for i
    using assms(3) that nth_mem by metis
  show "map2 (+) (map2 (*) (map2 (/) (map2 (-) row mu) den) den) mu = row"
    using assms(1,2) nz by (auto intro!: nth_equalityI)
  show "map (\<lambda>y. y + 0) (map2 (*) (map2 (/) (map (\<lambda>x. x - 0) row) den) den) = row"
    using assms(1) nz by (auto intro!: nth_equalityI)
qed


lemma map_result_map:
  "\<forall>x \<in> set xs. f (h x) = Inr (g x) \<Longrightarrow> map_result f (map h xs) = Inr (map g xs)"
  by (induction xs) simp_all

lemma map_comp_cong:
  "(\<And>x. x \<in> set xs \<Longrightarrow> f (g x) = h x) \<Longrightarrow> map f (map g xs) = map h xs"
  by (induction xs) simp_all

lemma stdev_defined_values:
  assumes "stdev_defined s" "0 < st_eps s"
  shows "\<exists>m den. st_mean_1_D s = map Fin m \<and> length m = st_dim s
           \<and> map (\<lambda>t. xadd t (Fin (st_eps s))) (get_stdev s) = map Fin den
           \<and> length den = st_dim s \<and> 0 \<notin> set den"
proof -
  from assms(1) have la: "list_all2 (\<lambda>m msq. case (m, msq) of
                             (Fin a, Fin b) \<Rightarrow> 0 \<le> b - a\<^sup>2 + st_eps s
                           | _ \<Rightarrow> False) (st_mean_1_D s) (st_meansq_1_D s)"
    and lens: "length (st_mean_1_D s) = st_dim s" "length (st_meansq_1_D s) = st_dim s"
    by (simp_all add: stdev_defined_def)
  from fin_lists [OF la] obtain m ms where
    m: "st_mean_1_D s = map Fin m" "st_meansq_1_D s = map Fin ms" "length m = length ms"
    "\<forall>j < length m. 0 \<le> ms ! j - (m ! j)\<^sup>2 + st_eps s"
    by auto
  have len: "length m = st_dim s" "length ms = st_dim s" using lens m by simp_all
  define sdv where "sdv = map2 (\<lambda>b a. sqrt (b - a\<^sup>2 + st_eps s)) ms m"
  define den where "den = map (\<lambda>t. t + st_eps s) sdv"
  have stdev: "get_stdev s = map Fin sdv"
    using m(3,4) unfolding get_stdev_def m(1,2) sdv_def
    by (intro nth_equalityI) (auto simp: xsub_def power2_eq_square not_less)
  have "map (\<lambda>t. xadd t (Fin (st_eps s))) (get_stdev s) = map Fin den"
    by (simp add: stdev den_def)
  moreover have "length den = st_dim s"
    using len by (simp add: den_def sdv_def)
  moreover have "0 < t" if "t \<in> set den" for t
  proof -
    from that obtain u where "u \<in> set sdv" "t = u + st_eps s" by (auto simp: den_def)
    moreover from this have "0 \<le> u" using m(3,4) by (auto simp: sdv_def set_zip)
    ultimately show ?thesis using assms(2) by simp
  qed
  then have "0 \<notin> set den" by force
  ultimately show ?thesis using m(1) len(1) by blast
qed

text \<open>
  The round trip does not hold in every reachable state. The constructor accepts an
  initial mean 2 with an initial mean square 1; there \<open>meansq - mean\<^sup>2 + eps\<close> is negative,
  the standard deviation is not-a-number, \<^verbatim>\<open>standardize\<close> of the input \<open>[[5]]\<close> returns
  \<open>[[nan]]\<close>, and \<^verbatim>\<open>unstandardize\<close> of that returns \<open>[[nan]]\<close>, not the input.
\<close>

theorem standardize_roundtrip_counterexample:
  "reachable st_bad \<and> 0 < st_eps st_bad \<and> length [5 :: real] = st_dim st_bad
   \<and> standardize st_bad [[5]] True = Inr [[NaN]]
   \<and> unstandardize st_bad [[NaN]] True = Inr [[NaN]]
   \<and> (Inr [[NaN]] :: py_error + xreal list list) \<noteq> Inr (map (map Fin) [[5]])"
proof -
  have "reachable st_bad"
    unfolding st_bad_def by (rule reachable_init)
  moreover have "standardize st_bad [[5]] True = Inr [[NaN]]"
    by (simp add: standardize_def st_bad_def Standardizer_init_def get_mean_def get_stdev_def
        np_broadcast_def xsub_def)
  moreover have "unstandardize st_bad [[NaN]] True = Inr [[NaN]]"
    by (simp add: unstandardize_def st_bad_def Standardizer_init_def get_mean_def get_stdev_def
        np_broadcast_def xsub_def)
  ultimately show ?thesis
    by (simp add: st_bad_def Standardizer_init_def)
qed

text \<open>
  Accumulators that are statistics of data stay so under every update with a batch
  that is not empty, and their standard deviation is defined.
\<close>

lemma sum_list_sq_dev:
  "sum_list (map (\<lambda>x. (x - mu)\<^sup>2) xs)
   = sum_list (map (\<lambda>x. x\<^sup>2) xs) - 2 * mu * sum_list xs + real (length xs) * mu\<^sup>2"
  by (induction xs) (simp_all add: power2_diff algebra_simps)

lemma mean_sq_le:
  assumes "xs \<noteq> []"
  shows "(sum_list xs / real (length xs))\<^sup>2 \<le> sum_list (map (\<lambda>x. x\<^sup>2) xs) / real (length xs)"
proof -
  define n where "n = real (length xs)"
  define mu where "mu = sum_list xs / n"
  have n: "0 < n" using assms by (simp add: n_def)
  then have sm: "sum_list xs = n * mu" by (simp add: mu_def)
  have "0 \<le> sum_list (map (\<lambda>x. (x - mu)\<^sup>2) xs)"
    by (rule sum_list_nonneg) auto
  also have "\<dots> = sum_list (map (\<lambda>x. x\<^sup>2) xs) - 2 * mu * (n * mu) + n * mu\<^sup>2"
    unfolding sum_list_sq_dev sm n_def ..
  also have "\<dots> = sum_list (map (\<lambda>x. x\<^sup>2) xs) - n * mu\<^sup>2"
    by (simp add: power2_eq_square algebra_simps)
  finally have "n * mu\<^sup>2 \<le> sum_list (map (\<lambda>x. x\<^sup>2) xs)" by simp
  then have "mu\<^sup>2 \<le> sum_list (map (\<lambda>x. x\<^sup>2) xs) / n"
    using n by (simp add: pos_le_divide_eq mult.commute)
  then show ?thesis by (simp add: mu_def n_def)
qed

lemma convex_sq:
  fixes a m b ms bs :: real
  assumes "0 \<le> a" "a \<le> 1" "m\<^sup>2 \<le> ms" "b\<^sup>2 \<le> bs"
  shows "(a * m + (1 - a) * b)\<^sup>2 \<le> a * ms + (1 - a) * bs"
proof -
  have "a * m\<^sup>2 + (1 - a) * b\<^sup>2 - (a * m + (1 - a) * b)\<^sup>2 = a * (1 - a) * (m - b)\<^sup>2"
    by (simp add: power2_eq_square algebra_simps)
  moreover have "0 \<le> a * (1 - a) * (m - b)\<^sup>2"
    using assms by (intro mult_nonneg_nonneg) simp_all
  ultimately have "(a * m + (1 - a) * b)\<^sup>2 \<le> a * m\<^sup>2 + (1 - a) * b\<^sup>2" by linarith
  also have "\<dots> \<le> a * ms + (1 - a) * bs"
    using assms by (intro add_mono mult_left_mono) simp_all
  finally show ?thesis .
qed

lemma col_mean_fin:
  "pts \<noteq> [] \<Longrightarrow>
   col_mean D pts
   = map Fin (map (\<lambda>j. sum_list (map (\<lambda>row. row ! j) pts) / real (length pts)) [0..<D])"
  by (simp add: col_mean_def)

lemma col_sq:
  assumes "pts \<noteq> []" "\<forall>row \<in> set pts. length row = D" "j < D"
  shows "(sum_list (map (\<lambda>row. row ! j) pts) / real (length pts))\<^sup>2
         \<le> sum_list (map (\<lambda>row. row ! j) (map (map (\<lambda>x. x\<^sup>2)) pts)) / real (length pts)"
proof -
  define col where "col = map (\<lambda>row. row ! j) pts"
  have sq: "map (\<lambda>row. row ! j) (map (map (\<lambda>x. x\<^sup>2)) pts) = map (\<lambda>x. x\<^sup>2) col"
    using assms(2,3) by (auto simp: col_def)
  have "col \<noteq> []" "length col = length pts" using assms(1) by (simp_all add: col_def)
  then have "(sum_list col / real (length pts))\<^sup>2
             \<le> sum_list (map (\<lambda>x. x\<^sup>2) col) / real (length pts)"
    using mean_sq_le [of col] by simp
  then show ?thesis unfolding sq by (simp add: col_def)
qed

lemma init_consistent:
  "0 \<le> init_count \<Longrightarrow> init_mean\<^sup>2 \<le> init_meansq
   \<Longrightarrow> consistent (Standardizer_init D eps init_count init_mean init_meansq)"
  by (simp add: consistent_def Standardizer_init_def list_all2_conv_all_nth)

lemma consistent_stdev_defined:
  assumes "consistent s" "0 \<le> st_eps s"
  shows "stdev_defined s"
proof -
  have "list_all2 (\<lambda>m msq. case (m, msq) of
                             (Fin a, Fin b) \<Rightarrow> 0 \<le> b - a\<^sup>2 + st_eps s
                           | _ \<Rightarrow> False) (st_mean_1_D s) (st_meansq_1_D s)"
    using assms
    by (auto simp: consistent_def elim!: list_all2_mono split: xreal.splits)
  then show ?thesis using assms(1) by (simp add: consistent_def stdev_defined_def)
qed

lemma update_consistent:
  assumes cons: "consistent s" and ne: "pts \<noteq> []"
    and rows: "\<forall>row \<in> set pts. length row = st_dim s"
  shows "\<exists>s'. update s pts = Inr s' \<and> consistent s'
              \<and> st_eps s' = st_eps s \<and> st_dim s' = st_dim s"
proof -
  define D where "D = st_dim s"
  define num where "num = real (length pts)"
  define a where "a = st_count s / (st_count s + num)"
  define cm where "cm = map (\<lambda>j. sum_list (map (\<lambda>row. row ! j) pts) / num) [0..<D]"
  define cq where
    "cq = map (\<lambda>j. sum_list (map (\<lambda>row. row ! j) (map (map (\<lambda>x. x\<^sup>2)) pts)) / num) [0..<D]"
  from cons have la: "list_all2 (\<lambda>m msq. case (m, msq) of (Fin a, Fin b) \<Rightarrow> a\<^sup>2 \<le> b | _ \<Rightarrow> False)
                        (st_mean_1_D s) (st_meansq_1_D s)"
    and lens: "length (st_mean_1_D s) = D" "length (st_meansq_1_D s) = D"
    and cnt: "0 \<le> st_count s"
    by (simp_all add: consistent_def D_def)
  from fin_lists [OF la] obtain m ms where
    m: "st_mean_1_D s = map Fin m" "st_meansq_1_D s = map Fin ms" "length m = length ms"
    "\<forall>j < length m. (m ! j)\<^sup>2 \<le> ms ! j"
    by auto
  have len: "length m = D" "length ms = D" using lens m by simp_all
  have num: "0 < num" using ne by (simp add: num_def)
  have a01: "0 \<le> a" "a \<le> 1" using num cnt by (simp_all add: a_def)
  have ax: "xdiv (Fin (st_count s)) (Fin (st_count s + num)) = Fin a"
    using num cnt by (simp add: a_def)
  define nm where "nm = map2 (\<lambda>m b. a * m + (1 - a) * b) m cm"
  define nq where "nq = map2 (\<lambda>m b. a * m + (1 - a) * b) ms cq"
  have mix: "map2 (\<lambda>m b. xadd (xmul (Fin a) m) (xmul (xsub (Fin 1) (Fin a)) b))
               (map Fin u) (map Fin v)
             = map Fin (map2 (\<lambda>m b. a * m + (1 - a) * b) u v)" for u v
    by (induction u v rule: list_induct2') (simp_all add: xsub_def)
  define s' where "s' = s\<lparr> st_mean_1_D := map Fin nm, st_meansq_1_D := map Fin nq,
                            st_count := st_count s + num \<rparr>"
  have c1: "col_mean (st_dim s) pts = map Fin cm"
    using ne by (simp add: col_mean_def cm_def num_def D_def)
  have c2: "col_mean (st_dim s) (map (map (\<lambda>x. x\<^sup>2)) pts) = map Fin cq"
    using ne by (simp add: col_mean_def cq_def num_def D_def)
  have upd: "update s pts = Inr s'"
    unfolding update_def Let_def get_count_def get_mean_def get_meansq_def c1 c2 m(1,2)
      num_def [symmetric] ax mix
    using rows by (simp add: s'_def nm_def nq_def)
  have lcm: "length cm = D" "length cq = D" by (simp_all add: cm_def cq_def)
  have "(nm ! j)\<^sup>2 \<le> nq ! j" if "j < D" for j
  proof -
    have h1: "(m ! j)\<^sup>2 \<le> ms ! j" using m(4) len that by simp
    have h2: "(cm ! j)\<^sup>2 \<le> cq ! j"
      using col_sq [OF ne, of D j] rows that by (simp add: cm_def cq_def num_def D_def)
    have "nm ! j = a * m ! j + (1 - a) * cm ! j" "nq ! j = a * ms ! j + (1 - a) * cq ! j"
      using len lcm that by (simp_all add: nm_def nq_def)
    then show ?thesis using convex_sq [OF a01 h1 h2] by simp
  qed
  moreover have "length nm = D" "length nq = D"
    using len lcm by (simp_all add: nm_def nq_def)
  ultimately have "consistent s'"
    using cnt num by (simp add: consistent_def s'_def list_all2_conv_all_nth D_def)
  then show ?thesis using upd by (auto simp: s'_def)
qed

text \<open>
  Claim C9, amended. In every state in which the standard deviation is defined (finite
  accumulators of the configured width with \<open>meansq - mean\<^sup>2 + eps \<ge> 0\<close> in every
  column), for every \<open>eps > 0\<close>, every 2-D input whose rows have the configured width
  and either value of \<open>centered\<close>, \<^verbatim>\<open>standardize\<close> returns an array and
  \<^verbatim>\<open>unstandardize\<close> of it, with the same flag, returns the input. Exact over the
  reals.
\<close>

theorem standardize_roundtrip:
  assumes "stdev_defined s" "0 < st_eps s" "\<forall>row \<in> set x_B_D. length row = st_dim s"
  shows "\<exists>y. standardize s x_B_D centered = Inr y
             \<and> unstandardize s y centered = Inr (map (map Fin) x_B_D)"
proof -
  from stdev_defined_values [OF assms(1,2)] obtain m den where
    m: "st_mean_1_D s = map Fin m" "length m = st_dim s"
    and denx: "map (\<lambda>t. xadd t (Fin (st_eps s))) (get_stdev s) = map Fin den"
    and den: "length den = st_dim s" "0 \<notin> set den"
    by blast
  show ?thesis
  proof (cases centered)
    case True
    define yr where "yr = map (\<lambda>row. map2 (/) (map2 (-) row m) den) x_B_D"
    have c: "map_result (\<lambda>row. np_broadcast xsub (map Fin row) (map Fin m)) x_B_D
             = Inr (map (\<lambda>row. map Fin (map2 (-) row m)) x_B_D)"
      using assms(3) m(2)
      by (intro map_result_total) (simp add: np_broadcast_same map2_fin_sub del: map_map)
    have d: "map_result (\<lambda>row. np_broadcast xdiv row (map Fin den))
               (map (\<lambda>row. map Fin (map2 (-) row m)) x_B_D)
             = Inr (map (\<lambda>row. map Fin (map2 (/) (map2 (-) row m) den)) x_B_D)"
      using assms(3) m(2) den
      by (intro map_result_map) (simp add: np_broadcast_same map2_fin_div del: map_map)
    have fwd: "standardize s x_B_D centered = Inr (map (map Fin) yr)"
      using True c d by (simp add: standardize_def get_mean_def m(1) denx yr_def comp_def)
    have e: "map_result (\<lambda>row. np_broadcast xmul row (map Fin den)) (map (map Fin) yr)
             = Inr (map (\<lambda>row. map Fin (map2 (*) row den)) yr)"
      using assms(3) m(2) den
      by (intro map_result_map) (auto simp: np_broadcast_same map2_fin_mul yr_def simp del: map_map)
    have f: "map_result (\<lambda>row. np_broadcast xadd row (map Fin m))
               (map (\<lambda>row. map Fin (map2 (*) row den)) yr)
             = Inr (map (\<lambda>row. map Fin (map2 (+) (map2 (*) row den) m)) yr)"
      using assms(3) m(2) den
      by (intro map_result_map) (auto simp: np_broadcast_same map2_fin_add yr_def simp del: map_map)
    have rt: "map2 (+) (map2 (*) (map2 (/) (map2 (-) row m) den) den) m = row"
      if "row \<in> set x_B_D" for row
      using that assms(3) m(2) den by (intro row_roundtrip(1)) simp_all
    have g: "map (\<lambda>row. map Fin (map2 (+) (map2 (*) row den) m)) yr = map (map Fin) x_B_D"
      unfolding yr_def by (rule map_comp_cong) (simp only: rt)
    have bwd: "unstandardize s (map (map Fin) yr) centered = Inr (map (map Fin) x_B_D)"
      using True e f g by (simp add: unstandardize_def get_mean_def m(1) denx)
    show ?thesis using fwd bwd by blast
  next
    case False
    define yr where "yr = map (\<lambda>row. map2 (/) (map (\<lambda>x. x - 0) row) den) x_B_D"
    have c: "map (map (\<lambda>x. xsub (Fin x) (Fin 0))) x_B_D
             = map (\<lambda>row. map Fin (map (\<lambda>x. x - 0) row)) x_B_D"
      by (simp add: xsub_def comp_def)
    have d: "map_result (\<lambda>row. np_broadcast xdiv row (map Fin den))
               (map (\<lambda>row. map Fin (map (\<lambda>x. x - 0) row)) x_B_D)
             = Inr (map (\<lambda>row. map Fin (map2 (/) (map (\<lambda>x. x - 0) row) den)) x_B_D)"
      using assms(3) den
      by (intro map_result_map) (simp add: np_broadcast_same map2_fin_div del: map_map)
    have fwd: "standardize s x_B_D centered = Inr (map (map Fin) yr)"
      using False d unfolding standardize_def denx c by (simp add: yr_def comp_def)
    have e: "map_result (\<lambda>row. np_broadcast xmul row (map Fin den)) (map (map Fin) yr)
             = Inr (map (\<lambda>row. map Fin (map2 (*) row den)) yr)"
      using assms(3) den
      by (intro map_result_map) (auto simp: np_broadcast_same map2_fin_mul yr_def simp del: map_map)
    have rt: "map (\<lambda>y. y + 0) (map2 (*) (map2 (/) (map (\<lambda>x. x - 0) row) den) den) = row"
      if "row \<in> set x_B_D" for row
      using that assms(3) den by (intro row_roundtrip(2)) simp_all
    have "map (map (\<lambda>y. xadd y (Fin 0))) (map (\<lambda>row. map Fin (map2 (*) row den)) yr)
          = map (\<lambda>row. map Fin (map (\<lambda>y. y + 0) (map2 (*) row den))) yr"
      by (rule map_comp_cong) simp
    also have "\<dots> = map (map Fin) x_B_D"
      unfolding yr_def by (rule map_comp_cong) (simp only: rt)
    finally have g:
      "map (map (\<lambda>y. xadd y (Fin 0))) (map (\<lambda>row. map Fin (map2 (*) row den)) yr)
       = map (map Fin) x_B_D" .
    have bwd: "unstandardize s (map (map Fin) yr) centered = Inr (map (map Fin) x_B_D)"
      using False e g by (simp add: unstandardize_def denx)
    show ?thesis using fwd bwd by blast
  qed
qed


theorem standardize_roundtrip_witness:
  "\<exists>s1 y. update (Standardizer_init 2 (1 / 1000000) 0 0 1) [[1, 2], [3, 4]] = Inr s1
          \<and> standardize s1 [[5, 6]] True = Inr y
          \<and> unstandardize s1 y True = Inr [[Fin 5, Fin 6]]"
proof -
  let ?s0 = "Standardizer_init 2 (1 / 1000000) 0 0 1"
  have c0: "consistent ?s0" by (rule init_consistent) simp_all
  have d0: "st_dim ?s0 = 2" "st_eps ?s0 = 1 / 1000000" by (simp_all add: Standardizer_init_def)
  from update_consistent [OF c0, of "[[1, 2], [3, 4]]"] d0
  obtain s1 where u: "update ?s0 [[1, 2], [3, 4]] = Inr s1" "consistent s1"
    "st_eps s1 = 1 / 1000000" "st_dim s1 = 2"
    by auto
  have sd: "stdev_defined s1" using u by (intro consistent_stdev_defined) simp_all
  have e: "0 < st_eps s1" using u by simp
  have rows: "\<forall>row \<in> set [[5, 6 :: real]]. length row = st_dim s1" using u by simp
  from standardize_roundtrip [OF sd e rows, of True] u(1) show ?thesis by auto
qed

end
